theory Spec2Isabelle
  imports Complex_Main "HOL-Library.Word" "HOL-Library.Multiset"
begin

section \<open>The HASPI batch-scoring driver (recipes/cpc2/baseline/compute\_haspi.py)\<close>

text \<open>
  A shallow embedding of \<^verbatim>\<open>compute_haspi.py\<close>. A Python string is modelled by
  the bytes of its code points in the UTF-8 scheme (\<open>string\<close>). A Python string may
  hold a surrogate code point (U+D800 to U+DFFF; \<^verbatim>\<open>json.load\<close> delivers one from
  an escape such as \<^verbatim>\<open>\ud800\<close>); in this scheme it takes the three bytes
  \<open>ED\<close>, \<open>A0..BF\<close>, \<open>80..BF\<close>. The separator \<^verbatim>\<open>_\<close> is ASCII, so splitting
  the bytes and splitting the code points agree. Exceptions are values of \<open>py_error\<close>
  and a function that can raise returns \<open>py_error + 'a\<close>.
\<close>

datatype py_error =
    ValueError
  | FileNotFoundError
  | KeyError
  | IndexError
  | AssertionError
  | UnicodeEncodeError

subsection \<open>String primitives\<close>

text \<open>
  \<^verbatim>\<open>s.split(sep)\<close> for a one-character separator: the segments between the
  occurrences of the separator; the result is never empty (\<^verbatim>\<open>"".split("_") == [""]\<close>).
\<close>

fun py_split :: "char \<Rightarrow> string \<Rightarrow> string list" where
  "py_split c [] = [[]]"
| "py_split c (x # xs) =
     (if x = c then [] # py_split c xs
      else (case py_split c xs of
              [] \<Rightarrow> [[x]]
            | seg # segs \<Rightarrow> (x # seg) # segs))"

text \<open>\<^verbatim>\<open>sep.join(parts)\<close>.\<close>

fun py_join :: "string \<Rightarrow> string list \<Rightarrow> string" where
  "py_join sep [] = []"
| "py_join sep [p] = p"
| "py_join sep (p # q # ps) = p @ sep @ py_join sep (q # ps)"

text \<open>
  \<^verbatim>\<open>s.encode("utf-8")\<close>: the bytes of the string, or \<^verbatim>\<open>UnicodeEncodeError\<close> when
  the string holds a surrogate, that is a byte \<open>ED\<close> followed by a byte from \<open>A0\<close>
  to \<open>BF\<close>.
\<close>

fun has_surrogate :: "string \<Rightarrow> bool" where
  "has_surrogate (a # b # cs) =
     ((of_char a = (0xED :: nat) \<and> (0xA0 :: nat) \<le> of_char b \<and> of_char b \<le> (0xBF :: nat))
      \<or> has_surrogate (b # cs))"
| "has_surrogate cs = False"

definition utf8_encode :: "string \<Rightarrow> py_error + string" where
  "utf8_encode s = (if has_surrogate s then Inl UnicodeEncodeError else Inr s)"

subsection \<open>Signal name parser\<close>

text \<open>
  \<^verbatim>\<open>scene, listener, *system = signal_name.split("_")\<close> raises \<^verbatim>\<open>ValueError\<close>
  when the split has fewer than two parts; the explicit check raises it when the scene
  or the listener is empty or when no part is left for the system.
\<close>

definition parse_cec2_signal_name :: "string \<Rightarrow> py_error + (string \<times> string \<times> string)" where
  "parse_cec2_signal_name signal_name =
     (case py_split CHR ''_'' signal_name of
        scene # listener # system \<Rightarrow>
          if scene = [] \<or> listener = [] \<or> system = [] then Inl ValueError
          else Inr (scene, listener, py_join ''_'' system)
      | _ \<Rightarrow> Inl ValueError)"

subsection \<open>Integers as text, slices\<close>

text \<open>\<^verbatim>\<open>str(i)\<close> for a Python integer, as the f-string of the file name uses it.\<close>

definition digit_char :: "nat \<Rightarrow> char" where
  "digit_char d = ''0123456789'' ! d"

fun str_nat :: "nat \<Rightarrow> string" where
  "str_nat n = (if n < 10 then [digit_char n] else str_nat (n div 10) @ [digit_char (n mod 10)])"

definition str_int :: "int \<Rightarrow> string" where
  "str_int i = (if i < 0 then CHR ''-'' # str_nat (nat (- i)) else str_nat (nat i))"

text \<open>Every \<open>k\<close>-th element of a list, starting with the first one.\<close>

fun take_every :: "nat \<Rightarrow> 'a list \<Rightarrow> 'a list" where
  "take_every k [] = []"
| "take_every k (x # xs) = x # take_every k (drop (k - 1) xs)"

text \<open>
  The extended slice \<^verbatim>\<open>xs[start::step]\<close>. A zero step raises \<^verbatim>\<open>ValueError\<close>; a
  negative start counts from the end and is clipped; a negative step walks backwards
  from the start index to the beginning of the list.
\<close>

definition py_slice_from :: "'a list \<Rightarrow> int \<Rightarrow> int \<Rightarrow> py_error + 'a list" where
  "py_slice_from xs start step =
     (let len = int (length xs) in
      if step = 0 then Inl ValueError
      else if 0 < step then
        (let lo = (if start < 0 then max (start + len) 0 else min start len)
         in Inr (take_every (nat step) (drop (nat lo) xs)))
      else
        (let hi = (if start < 0 then max (start + len) (- 1) else min start (len - 1))
         in Inr (take_every (nat (- step)) (rev (take (nat (hi + 1)) xs)))))"

subsection \<open>Data\<close>

text \<open>
  A manifest record is a JSON object with at least the key \<^verbatim>\<open>signal\<close>; a result
  record has the keys \<^verbatim>\<open>signal\<close> and \<^verbatim>\<open>haspi\<close>. The score type \<open>'s\<close> is
  whatever the scorer returns.
\<close>

record signal_record =
  signal :: string

record 's result = signal_record +
  haspi :: 's

text \<open>One entry of \<^verbatim>\<open>listeners.json\<close>.\<close>

record audiogram =
  audiogram_levels_l :: "int list"
  audiogram_levels_r :: "int list"
  audiogram_cfs :: "int list"

text \<open>
  The array \<^verbatim>\<open>wavfile.read\<close> returns: one-dimensional for a mono file, otherwise
  two-dimensional (frames by channels), held here as the list of its channels.
\<close>

datatype 'a ndarray = Arr1 "'a list" | Arr2 "'a list list"

text \<open>\<^verbatim>\<open>a[:, k]\<close> for \<open>k \<ge> 0\<close>: \<^verbatim>\<open>IndexError\<close> on a one-dimensional array and on a
  channel that is not there.\<close>

fun column :: "'a ndarray \<Rightarrow> nat \<Rightarrow> py_error + 'a list" where
  "column (Arr1 xs) k = Inl IndexError"
| "column (Arr2 chans) k = (if k < length chans then Inr (chans ! k) else Inl IndexError)"

text \<open>
  \<^verbatim>\<open>a / 32768.0\<close> on an array of 16-bit PCM samples, element by element
  (\<open>map_ndarray\<close> is the map function of the datatype). The quotient of a 16-bit integer
  by \<open>2 ^ 15\<close> is exact in binary floating point, so the real quotient is the value
  the code computes.
\<close>

definition div_32768 :: "16 word ndarray \<Rightarrow> real ndarray" where
  "div_32768 a = map_ndarray (\<lambda>s. real_of_int (sint s) / 32768) a"

text \<open>The keyword arguments of the scorer \<^verbatim>\<open>haspi_v2_be\<close>.\<close>

record haspi_args =
  reference_left :: "real list"
  reference_right :: "real list"
  processed_left :: "real list"
  processed_right :: "real list"
  fs_signal :: nat
  audiogram_left :: "int list"
  audiogram_right :: "int list"
  audiogram_cfs_arg :: "int list"

text \<open>The configuration object \<^verbatim>\<open>cfg\<close>.\<close>

record path_cfg =
  metadata_dir :: string
  signal_dir :: string
  scene_dir :: string

record compute_haspi_cfg =
  batch :: int
  n_batches :: int
  set_random_seed :: bool

record cfg =
  dataset :: string
  path :: path_cfg
  compute_haspi :: compute_haspi_cfg

text \<open>
  The library functions the script calls, as parameters: the MD5 digest of a byte
  string, the generator state \<^verbatim>\<open>np.random.seed\<close> installs for a seed, the
  scorer, which may draw from the process-wide generator, and what \<^verbatim>\<open>json.dumps\<close>
  gives for a string and for a score.
\<close>

record ('g, 's) lib =
  md5_digest :: "string \<Rightarrow> 128 word"
  seed_state :: "nat \<Rightarrow> 'g"
  haspi_v2_be :: "haspi_args \<Rightarrow> 'g \<Rightarrow> 's \<times> 'g"
  json_dumps_str :: "string \<Rightarrow> string"
  json_dumps_float :: "'s \<Rightarrow> string"

text \<open>
  The files the script only reads, keyed by directory and file name; \<open>None\<close> is a
  missing file. A WAV file is its sample rate and its samples.
\<close>

record 'm env =
  json_manifests :: "string \<times> string \<rightharpoonup> 'm signal_record_scheme list"
  json_listeners :: "string \<times> string \<rightharpoonup> (string \<rightharpoonup> audiogram)"
  wav_files :: "string \<times> string \<rightharpoonup> nat \<times> 16 word ndarray"

text \<open>
  What the script changes: the JSON-lines files of the working directory (each held as
  the list of the records of its lines) and the process-wide random generator.
  Two history variables record what the run does: \<open>haspi_calls\<close>, the signal names
  \<^verbatim>\<open>compute_haspi_for_signal\<close> has been called with, and \<open>fp_writes\<close>, the calls
  of \<^verbatim>\<open>fp.write\<close> in order, each with the name of the file and the characters
  written.
\<close>

record ('g, 's) world =
  jsonl_files :: "string \<rightharpoonup> 's result list"
  rng :: 'g
  haspi_calls :: "string list"
  fp_writes :: "(string \<times> string) list"

subsection \<open>JSON-lines files\<close>

text \<open>The records of a file, none when the file is missing.\<close>

definition file_records :: "('g, 's) world \<Rightarrow> string \<Rightarrow> 's result list" where
  "file_records w filename = (case jsonl_files w filename of None \<Rightarrow> [] | Some old \<Rightarrow> old)"

definition read_jsonl :: "string \<Rightarrow> ('g, 's) world \<Rightarrow> py_error + 's result list" where
  "read_jsonl filename w =
     (case jsonl_files w filename of
        None \<Rightarrow> Inl FileNotFoundError
      | Some records \<Rightarrow> Inr records)"

text \<open>
  \<^verbatim>\<open>json.dumps(record)\<close> for a result record: the keys in the order of the dict, with
  the separators \<^verbatim>\<open>", "\<close> and \<^verbatim>\<open>": "\<close>.
\<close>

definition json_dumps_result :: "('g, 's) lib \<Rightarrow> 's result \<Rightarrow> string" where
  \<open>json_dumps_result L r =
     ''{"signal": '' @ json_dumps_str L (signal r) @ '', "haspi": ''
       @ json_dumps_float L (haspi r) @ ''}''\<close>

text \<open>
  Opening in mode \<^verbatim>\<open>"a"\<close> creates a missing file and writes at the end; every
  record is written by one \<^verbatim>\<open>fp.write(json.dumps(record) + "\n")\<close> and becomes one
  more line of the file.
\<close>

definition write_jsonl ::
  "('g, 's) lib \<Rightarrow> string \<Rightarrow> 's result list \<Rightarrow> ('g, 's) world \<Rightarrow> ('g, 's) world" where
  "write_jsonl L filename records w =
     w\<lparr>jsonl_files := (jsonl_files w)
         (filename \<mapsto> file_records w filename @ records),
       fp_writes := fp_writes w
         @ map (\<lambda>record. (filename, json_dumps_result L record @ [CHR 0x0A])) records\<rparr>"

subsection \<open>Deterministic seeding\<close>

text \<open>
  \<^verbatim>\<open>int(hashlib.md5(seed_string.encode("utf-8")).hexdigest(), 16) % (10**8)\<close>; the
  encoding can raise.
\<close>

definition seed_of :: "('g, 's) lib \<Rightarrow> string \<Rightarrow> int" where
  "seed_of L bytes = uint (md5_digest L bytes) mod (10 ^ 8)"

definition md5_int :: "('g, 's) lib \<Rightarrow> string \<Rightarrow> py_error + int" where
  "md5_int L seed_string =
     (case utf8_encode seed_string of
        Inl e \<Rightarrow> Inl e
      | Inr bytes \<Rightarrow> Inr (seed_of L bytes))"

text \<open>\<^verbatim>\<open>np.random.seed\<close> accepts the integers from 0 to \<open>2 ^ 32 - 1\<close>.\<close>

definition np_random_seed :: "('g, 's) lib \<Rightarrow> int \<Rightarrow> ('g, 's) world \<Rightarrow> py_error + ('g, 's) world" where
  "np_random_seed L seed w =
     (if 0 \<le> seed \<and> seed < 2 ^ 32 then Inr (w\<lparr>rng := seed_state L (nat seed)\<rparr>)
      else Inl ValueError)"

definition set_seed_with_string :: "('g, 's) lib \<Rightarrow> string \<Rightarrow> ('g, 's) world \<Rightarrow> py_error + ('g, 's) world" where
  "set_seed_with_string L seed_string w =
     (case md5_int L seed_string of
        Inl e \<Rightarrow> Inl e
      | Inr seed \<Rightarrow> np_random_seed L seed w)"

text \<open>The next \<open>k\<close> values a consumer \<open>nxt\<close> draws from a generator state.\<close>

fun draws :: "('g \<Rightarrow> 'r \<times> 'g) \<Rightarrow> nat \<Rightarrow> 'g \<Rightarrow> 'r list" where
  "draws nxt 0 g = []"
| "draws nxt (Suc k) g = (case nxt g of (x, g') \<Rightarrow> x # draws nxt k g')"

subsection \<open>Score computation\<close>

definition compute_haspi_for_signal ::
  "('g, 's) lib \<Rightarrow> 'm env \<Rightarrow> path_cfg \<Rightarrow> string \<Rightarrow> 'g \<Rightarrow> py_error + 's \<times> 'g" where
  "compute_haspi_for_signal L E pth signal_name g =
     (case parse_cec2_signal_name signal_name of
        Inl e \<Rightarrow> Inl e
      | Inr (scene, listener, _) \<Rightarrow>
     (case json_listeners E (metadata_dir pth, ''listeners.json'') of
        None \<Rightarrow> Inl FileNotFoundError
      | Some listener_audiograms \<Rightarrow>
     (case listener_audiograms listener of
        None \<Rightarrow> Inl KeyError
      | Some audiogram \<Rightarrow>
     (case wav_files E (signal_dir pth, signal_name @ ''.wav'') of
        None \<Rightarrow> Inl FileNotFoundError
      | Some (fs_proc, proc0) \<Rightarrow>
     (case wav_files E (scene_dir pth, scene @ ''_target_ref.wav'') of
        None \<Rightarrow> Inl FileNotFoundError
      | Some (fs_ref, ref0) \<Rightarrow>
          if fs_ref \<noteq> fs_proc then Inl AssertionError
          else
            (let proc = div_32768 proc0; ref = div_32768 ref0 in
     (case column ref 0 of Inl e \<Rightarrow> Inl e | Inr ref_l \<Rightarrow>
     (case column ref 1 of Inl e \<Rightarrow> Inl e | Inr ref_r \<Rightarrow>
     (case column proc 0 of Inl e \<Rightarrow> Inl e | Inr proc_l \<Rightarrow>
     (case column proc 1 of Inl e \<Rightarrow> Inl e | Inr proc_r \<Rightarrow>
        Inr (haspi_v2_be L
              \<lparr>reference_left = ref_l, reference_right = ref_r,
               processed_left = proc_l, processed_right = proc_r,
               fs_signal = fs_proc,
               audiogram_left = audiogram_levels_l audiogram,
               audiogram_right = audiogram_levels_r audiogram,
               audiogram_cfs_arg = audiogram_cfs audiogram\<rparr> g)))))))))))"

subsection \<open>Resumable batch driver\<close>

definition results_file :: "cfg \<Rightarrow> string" where
  "results_file c =
     (let batch_str =
            (if 1 < n_batches (compute_haspi c)
             then ''.'' @ str_int (batch (compute_haspi c)) @ ''_'' @ str_int (n_batches (compute_haspi c))
             else [])
      in dataset c @ ''.haspi'' @ batch_str @ ''.jsonl'')"

text \<open>
  Lines 109 to 115: drop the records whose signal is a key of the index of the loaded
  results, then take the shard \<^verbatim>\<open>records[batch - 1 :: n_batches]\<close> of what is left.
\<close>

definition select_records ::
  "'m signal_record_scheme list \<Rightarrow> 's result list \<Rightarrow> int \<Rightarrow> int \<Rightarrow> py_error + 'm signal_record_scheme list" where
  "select_records records results b n =
     (let results_index_keys = set (map signal results);
          records1 = filter (\<lambda>record. signal record \<notin> results_index_keys) records
      in py_slice_from records1 (b - 1) n)"

text \<open>
  The loop of lines 119 to 127. An exception ends the run and leaves the files as they
  are at that moment.
\<close>

fun score_loop ::
  "('g, 's) lib \<Rightarrow> 'm env \<Rightarrow> cfg \<Rightarrow> string \<Rightarrow> 'm signal_record_scheme list \<Rightarrow> ('g, 's) world
     \<Rightarrow> (py_error + unit) \<times> ('g, 's) world" where
  "score_loop L E c rf [] w = (Inr (), w)"
| "score_loop L E c rf (record # records) w =
     (let signal_name = signal record in
      case (if set_random_seed (compute_haspi c) then set_seed_with_string L signal_name w else Inr w) of
        Inl e \<Rightarrow> (Inl e, w)
      | Inr w1 \<Rightarrow>
          (let w2 = w1\<lparr>haspi_calls := haspi_calls w1 @ [signal_name]\<rparr> in
           case compute_haspi_for_signal L E (path c) signal_name (rng w2) of
             Inl e \<Rightarrow> (Inl e, w2)
           | Inr (score, g) \<Rightarrow>
               score_loop L E c rf records
                 (write_jsonl L rf [\<lparr>signal = signal_name, haspi = score\<rparr>] (w2\<lparr>rng := g\<rparr>))))"

definition run_calculate_haspi ::
  "('g, 's) lib \<Rightarrow> 'm env \<Rightarrow> cfg \<Rightarrow> ('g, 's) world \<Rightarrow> (py_error + unit) \<times> ('g, 's) world" where
  "run_calculate_haspi L E c w =
     (case json_manifests E (metadata_dir (path c), dataset c @ ''.json'') of
        None \<Rightarrow> (Inl FileNotFoundError, w)
      | Some records \<Rightarrow>
          (let rf = results_file c in
           case (if jsonl_files w rf \<noteq> None then read_jsonl rf w else Inr []) of
             Inl e \<Rightarrow> (Inl e, w)
           | Inr results \<Rightarrow>
               (case select_records records results
                       (batch (compute_haspi c)) (n_batches (compute_haspi c)) of
                  Inl e \<Rightarrow> (Inl e, w)
                | Inr selected \<Rightarrow> score_loop L E c rf selected w)))"


subsection \<open>Example inputs\<close>

text \<open>
  A small installation used to run the definitions: every WAV file is there, stereo,
  at 16 kHz; every listener has an audiogram; the scorer returns one half and steps
  the generator; strings without special characters are encoded in plain quotes and
  the score one half as \<^verbatim>\<open>0.5\<close>. The scorer of \<open>probe_lib\<close> returns the sum
  of all the samples it is given.
\<close>

definition quote_plain :: "string \<Rightarrow> string" where
  "quote_plain s = [CHR 0x22] @ s @ [CHR 0x22]"

definition show_half :: "real \<Rightarrow> string" where
  "show_half h = ''0.5''"

definition example_lib :: "(nat, real) lib" where
  "example_lib =
     \<lparr>md5_digest = (\<lambda>s. of_nat (length s)),
      seed_state = (\<lambda>n. n),
      haspi_v2_be = (\<lambda>a g. (1 / 2, Suc g)),
      json_dumps_str = quote_plain,
      json_dumps_float = show_half\<rparr>"

definition probe_lib :: "(nat, real) lib" where
  "probe_lib =
     example_lib\<lparr>haspi_v2_be :=
       (\<lambda>a g. (sum_list (reference_left a) + sum_list (reference_right a)
                + sum_list (processed_left a) + sum_list (processed_right a), g))\<rparr>"

definition example_audiogram :: audiogram where
  "example_audiogram =
     \<lparr>audiogram_levels_l = [10, 20, 30], audiogram_levels_r = [15, 25, 35],
      audiogram_cfs = [250, 1000, 4000]\<rparr>"

definition example_env :: "signal_record list \<Rightarrow> unit env" where
  "example_env manifest =
     \<lparr>json_manifests = [(''meta'', ''train.json'') \<mapsto> manifest],
      json_listeners = [(''meta'', ''listeners.json'') \<mapsto> (\<lambda>l. Some example_audiogram)],
      wav_files = (\<lambda>p. Some (16000, Arr2 [[0, 16384], [- 32768, 32767]]))\<rparr>"

definition mono_env :: "unit env" where
  "mono_env =
     \<lparr>json_manifests = Map.empty,
      json_listeners = [(''meta'', ''listeners.json'') \<mapsto> [''L0001'' \<mapsto> example_audiogram]],
      wav_files = (\<lambda>p. Some (16000, Arr1 [0, 16384]))\<rparr>"

definition example_path :: path_cfg where
  "example_path = \<lparr>metadata_dir = ''meta'', signal_dir = ''signals'', scene_dir = ''scenes''\<rparr>"

definition example_cfg :: "int \<Rightarrow> int \<Rightarrow> cfg" where
  "example_cfg b n =
     \<lparr>dataset = ''train'', path = example_path,
      compute_haspi = \<lparr>batch = b, n_batches = n, set_random_seed = True\<rparr>\<rparr>"

definition empty_world :: "(nat, real) world" where
  "empty_world = \<lparr>jsonl_files = Map.empty, rng = 0, haspi_calls = [], fp_writes = []\<rparr>"

text \<open>
  A world in which the first signal is already scored, the world after a fresh run
  over two signals, and a signal name that starts with the surrogate U+D800.
\<close>

definition resumed_world :: "(nat, real) world" where
  "resumed_world =
     \<lparr>jsonl_files = [''train.haspi.jsonl'' \<mapsto> [\<lparr>signal = ''S1_L1_A'', haspi = 1 / 4\<rparr>]],
      rng = 0, haspi_calls = [], fp_writes = []\<rparr>"

definition scored_world :: "(nat, real) world" where
  \<open>scored_world =
     \<lparr>jsonl_files = [''train.haspi.jsonl'' \<mapsto>
        [\<lparr>signal = ''S1_L1_A'', haspi = 1 / 2\<rparr>, \<lparr>signal = ''S1_L1_B'', haspi = 1 / 2\<rparr>]],
      rng = 8, haspi_calls = [''S1_L1_A'', ''S1_L1_B''],
      fp_writes =
        [(''train.haspi.jsonl'', ''{"signal": "S1_L1_A", "haspi": 0.5}'' @ [CHR 0x0A]),
         (''train.haspi.jsonl'', ''{"signal": "S1_L1_B", "haspi": 0.5}'' @ [CHR 0x0A])]\<rparr>\<close>

definition surrogate_name :: string where
  "surrogate_name = [CHR 0xED, CHR 0xA0, CHR 0x80] @ ''_L1_E1''"

subsection \<open>Facts about splitting and joining\<close>

lemma py_split_not_Nil: "py_split c s \<noteq> []"
  by (induction s) (auto split: list.splits)

lemma py_join_Cons: "ps \<noteq> [] \<Longrightarrow> py_join sep (p # ps) = p @ sep @ py_join sep ps"
  by (cases ps) simp_all

lemma py_join_py_split: "py_join [c] (py_split c s) = s"
proof (induction s)
  case Nil
  show ?case by simp
next
  case (Cons x xs)
  obtain seg segs where sp: "py_split c xs = seg # segs"
    using py_split_not_Nil [of c xs] by (cases "py_split c xs") auto
  show ?case
  proof (cases "x = c")
    case True
    then show ?thesis using Cons sp by (simp add: py_join_Cons)
  next
    case False
    then show ?thesis using Cons sp by (cases segs) simp_all
  qed
qed

lemma py_split_append_sep:
  "c \<notin> set p \<Longrightarrow> py_split c (p @ c # s) = p # py_split c s"
  by (induction p) auto

lemma py_split_no_sep: "c \<notin> set p \<Longrightarrow> py_split c p = [p]"
  by (induction p) auto

lemma py_split_py_join:
  "ps \<noteq> [] \<Longrightarrow> \<forall>p \<in> set ps. c \<notin> set p \<Longrightarrow> py_split c (py_join [c] ps) = ps"
proof (induction ps)
  case Nil
  then show ?case by simp
next
  case (Cons p ps)
  show ?case
  proof (cases ps)
    case Nil
    then show ?thesis using Cons.prems by (simp add: py_split_no_sep)
  next
    case (Cons q qs)
    then show ?thesis using Cons.IH Cons.prems by (simp add: py_split_append_sep)
  qed
qed

subsection \<open>The parser\<close>

text \<open>
  Claim C2, as the code has it. A name made of the underscore-free segments \<open>segs\<close>,
  joined by underscores, parses exactly when there are at least three segments and the
  first two (scene and listener) are not empty; the result is then the scene, the
  listener, and the remaining segments joined by underscores again. In every other case
  the parser raises \<^verbatim>\<open>ValueError\<close>. Empty segments after the listener are accepted.
\<close>

theorem parse_cec2_signal_name_segments:
  assumes "\<forall>seg \<in> set segs. CHR ''_'' \<notin> set seg"
  shows "parse_cec2_signal_name (py_join ''_'' segs) =
           (if 3 \<le> length segs \<and> segs ! 0 \<noteq> [] \<and> segs ! 1 \<noteq> []
            then Inr (segs ! 0, segs ! 1, py_join ''_'' (drop 2 segs))
            else Inl ValueError)"
proof (cases "segs = []")
  case True
  then show ?thesis by (simp add: parse_cec2_signal_name_def)
next
  case False
  then have sp: "py_split CHR ''_'' (py_join ''_'' segs) = segs"
    using assms py_split_py_join [of segs "CHR ''_''"] by simp
  show ?thesis
  proof (cases segs)
    case Nil
    then show ?thesis using False by simp
  next
    case (Cons s rest)
    note c1 = this
    show ?thesis
    proof (cases rest)
      case Nil
      then show ?thesis using sp c1 by (simp add: parse_cec2_signal_name_def)
    next
      case (Cons l sys)
      then show ?thesis using sp c1 by (cases sys) (simp_all add: parse_cec2_signal_name_def)
    qed
  qed
qed

theorem parse_cec2_signal_name_segments_witness:
  "parse_cec2_signal_name ''S0001_L0001_E001_hr'' = Inr (''S0001'', ''L0001'', ''E001_hr'')
   \<and> parse_cec2_signal_name ''S0001_L0001'' = Inl ValueError
   \<and> parse_cec2_signal_name ''_L0001_E001'' = Inl ValueError"
  using parse_cec2_signal_name_segments [of "[''S0001'', ''L0001'', ''E001'', ''hr'']"]
        parse_cec2_signal_name_segments [of "[''S0001'', ''L0001'']"]
        parse_cec2_signal_name_segments [of "['''', ''L0001'', ''E001'']"]
  by simp

text \<open>
  Claim C2 as stated fails: the name \<^verbatim>\<open>S_L_\<close> has an empty third segment and
  the parser returns the scene \<^verbatim>\<open>S\<close>, the listener \<^verbatim>\<open>L\<close> and an empty system.
\<close>

theorem parse_cec2_signal_name_empty_segment_counterexample:
  "[] \<in> set (py_split CHR ''_'' ''S_L_'')
   \<and> parse_cec2_signal_name ''S_L_'' = Inr (''S'', ''L'', [])"
  by (simp add: parse_cec2_signal_name_def)

text \<open>
  Claim C10: when the parser succeeds, the scene, the listener and the system joined
  by underscores are the signal name it was given.
\<close>

theorem parse_cec2_signal_name_lossless:
  assumes "parse_cec2_signal_name signal_name = Inr (scene, listener, system)"
  shows "scene @ ''_'' @ listener @ ''_'' @ system = signal_name"
proof -
  from assms obtain sys where sp: "py_split CHR ''_'' signal_name = scene # listener # sys"
    and ne: "sys \<noteq> []" and sy: "system = py_join ''_'' sys"
    by (auto simp: parse_cec2_signal_name_def split: list.splits if_splits)
  have "py_join ''_'' (py_split CHR ''_'' signal_name) = signal_name"
    by (rule py_join_py_split)
  then show ?thesis using sp ne sy by (simp add: py_join_Cons)
qed

theorem parse_cec2_signal_name_lossless_witness:
  "parse_cec2_signal_name ''S0001_L0001_E001_hr'' = Inr (''S0001'', ''L0001'', ''E001_hr'')
   \<and> ''S0001'' @ ''_'' @ ''L0001'' @ ''_'' @ ''E001_hr'' = ''S0001_L0001_E001_hr''"
proof -
  have h: "parse_cec2_signal_name ''S0001_L0001_E001_hr'' = Inr (''S0001'', ''L0001'', ''E001_hr'')"
    by (simp add: parse_cec2_signal_name_def)
  show ?thesis using h parse_cec2_signal_name_lossless [OF h] by simp
qed

subsection \<open>Seeding\<close>

lemma seed_of_range: "0 \<le> seed_of L s" "seed_of L s < 10 ^ 8"
  by (simp_all add: seed_of_def)

lemma set_seed_with_string_ok:
  assumes "\<not> has_surrogate s"
  shows "set_seed_with_string L s w = Inr (w\<lparr>rng := seed_state L (nat (seed_of L s))\<rparr>)"
proof -
  have "0 \<le> seed_of L s" by (rule seed_of_range)
  moreover have "seed_of L s < 2 ^ 32"
    using seed_of_range(2) [of L s] by simp
  ultimately show ?thesis
    using assms
    by (simp add: set_seed_with_string_def md5_int_def utf8_encode_def np_random_seed_def)
qed

lemma set_seed_with_string_surrogate:
  "has_surrogate s \<Longrightarrow> set_seed_with_string L s w = Inl UnicodeEncodeError"
  by (simp add: set_seed_with_string_def md5_int_def utf8_encode_def)

lemma set_seed_with_string_Inl:
  "set_seed_with_string L s w = Inl e \<Longrightarrow> has_surrogate s \<and> e = UnicodeEncodeError"
  by (cases "has_surrogate s") (simp_all add: set_seed_with_string_ok set_seed_with_string_surrogate)

text \<open>
  Claim C5, as the code has it. For a string \<open>s\<close> that encodes to UTF-8, seeding does
  not raise: whatever the worlds \<open>w1\<close> and \<open>w2\<close> of two invocations are, both return,
  there is one seed below \<open>10^8\<close> (and so accepted by \<^verbatim>\<open>np.random.seed\<close>) whose
  generator state both leave behind, nothing else in the two worlds changes, and any
  consumer \<open>nxt\<close> draws the same \<open>k\<close> values after the one as after the other.
\<close>

theorem set_seed_with_string_deterministic:
  assumes "utf8_encode s = Inr bytes"
  shows "\<exists>seed w1' w2'. 0 \<le> seed \<and> seed < 10 ^ 8
          \<and> set_seed_with_string L s w1 = Inr w1' \<and> set_seed_with_string L s w2 = Inr w2'
          \<and> rng w1' = seed_state L (nat seed) \<and> rng w2' = seed_state L (nat seed)
          \<and> jsonl_files w1' = jsonl_files w1 \<and> jsonl_files w2' = jsonl_files w2
          \<and> draws nxt k (rng w1') = draws nxt k (rng w2')"
proof -
  have ns: "\<not> has_surrogate s"
    using assms by (simp add: utf8_encode_def split: if_splits)
  let ?w1 = "w1\<lparr>rng := seed_state L (nat (seed_of L s))\<rparr>"
  let ?w2 = "w2\<lparr>rng := seed_state L (nat (seed_of L s))\<rparr>"
  have "set_seed_with_string L s w1 = Inr ?w1" "set_seed_with_string L s w2 = Inr ?w2"
    using ns by (rule set_seed_with_string_ok)+
  moreover have "0 \<le> seed_of L s" "seed_of L s < 10 ^ 8" by (rule seed_of_range)+
  ultimately show ?thesis
    by (intro exI [of _ "seed_of L s"] exI [of _ ?w1] exI [of _ ?w2]) simp
qed

theorem set_seed_with_string_deterministic_witness:
  "set_seed_with_string example_lib ''S1_L1_A'' empty_world = Inr (empty_world\<lparr>rng := 7\<rparr>)
   \<and> set_seed_with_string example_lib ''S1_L1_A'' (empty_world\<lparr>rng := 99\<rparr>)
       = Inr (empty_world\<lparr>rng := 7\<rparr>)"
proof -
  have h: "utf8_encode ''S1_L1_A'' = Inr ''S1_L1_A''" by (simp add: utf8_encode_def)
  show ?thesis
    using set_seed_with_string_deterministic
            [OF h, of example_lib empty_world "empty_world\<lparr>rng := 99\<rparr>"]
    by (simp add: set_seed_with_string_ok seed_of_def example_lib_def empty_world_def)
qed

text \<open>
  Claim C5 as stated fails for a string that holds a surrogate: encoding it raises
  \<^verbatim>\<open>UnicodeEncodeError\<close> before any seed is derived, the generator is not touched,
  and two invocations that start from different generator states end in different
  states.
\<close>

theorem set_seed_with_string_surrogate_counterexample:
  "utf8_encode surrogate_name = Inl UnicodeEncodeError
   \<and> set_seed_with_string example_lib surrogate_name empty_world = Inl UnicodeEncodeError
   \<and> set_seed_with_string example_lib surrogate_name (empty_world\<lparr>rng := 99\<rparr>)
       = Inl UnicodeEncodeError
   \<and> rng empty_world \<noteq> rng (empty_world\<lparr>rng := 99\<rparr>)"
  by (simp add: set_seed_with_string_def md5_int_def utf8_encode_def surrogate_name_def
        empty_world_def)

subsection \<open>Normalisation of the samples\<close>

lemma sample_range:
  "- 1 \<le> real_of_int (sint s) / 32768 \<and> real_of_int (sint s) / 32768 \<le> 1" for s :: "16 word"
proof -
  have "- (2 ^ (LENGTH(16) - 1)) \<le> sint s" "sint s < 2 ^ (LENGTH(16) - 1)"
    by (rule sint_ge, rule sint_lt)
  then have "- 32768 \<le> sint s" "sint s \<le> 32767" by simp_all
  then have "- 32768 \<le> real_of_int (sint s)" "real_of_int (sint s) \<le> 32767" by linarith+
  then show ?thesis by simp
qed

lemma column_div_32768:
  "column (div_32768 a) k = Inr xs \<Longrightarrow>
     \<exists>chans. a = Arr2 chans \<and> k < length chans
       \<and> xs = map (\<lambda>s. real_of_int (sint s) / 32768) (chans ! k)"
  by (cases a) (auto simp: div_32768_def split: if_splits)

text \<open>
  Claim C9: whenever the score computation succeeds, both WAV files have at least two
  channels and the scorer has been called with the first two channels of the reference
  and of the processed file in which every 16-bit sample \<open>s\<close> is replaced by
  \<open>s / 32768\<close>; each of these values lies between \<open>-1\<close> and \<open>1\<close>.
\<close>

theorem compute_haspi_for_signal_normalises:
  assumes "compute_haspi_for_signal L E pth signal_name g = Inr r"
  shows "\<exists>scene listener system listener_audiograms a fs proc ref.
           parse_cec2_signal_name signal_name = Inr (scene, listener, system)
         \<and> json_listeners E (metadata_dir pth, ''listeners.json'') = Some listener_audiograms
         \<and> listener_audiograms listener = Some a
         \<and> wav_files E (signal_dir pth, signal_name @ ''.wav'') = Some (fs, Arr2 proc)
         \<and> wav_files E (scene_dir pth, scene @ ''_target_ref.wav'') = Some (fs, Arr2 ref)
         \<and> 2 \<le> length proc \<and> 2 \<le> length ref
         \<and> r = haspi_v2_be L
                 \<lparr>reference_left = map (\<lambda>s. real_of_int (sint s) / 32768) (ref ! 0),
                  reference_right = map (\<lambda>s. real_of_int (sint s) / 32768) (ref ! 1),
                  processed_left = map (\<lambda>s. real_of_int (sint s) / 32768) (proc ! 0),
                  processed_right = map (\<lambda>s. real_of_int (sint s) / 32768) (proc ! 1),
                  fs_signal = fs,
                  audiogram_left = audiogram_levels_l a,
                  audiogram_right = audiogram_levels_r a,
                  audiogram_cfs_arg = audiogram_cfs a\<rparr> g
         \<and> (\<forall>chan \<in> set [ref ! 0, ref ! 1, proc ! 0, proc ! 1]. \<forall>s \<in> set chan.
               - 1 \<le> real_of_int (sint s) / 32768 \<and> real_of_int (sint s) / 32768 \<le> 1)"
proof -
  from assms obtain scene listener system where
    p: "parse_cec2_signal_name signal_name = Inr (scene, listener, system)"
    by (cases "parse_cec2_signal_name signal_name")
       (auto simp: compute_haspi_for_signal_def)
  from assms p obtain la where
    l: "json_listeners E (metadata_dir pth, ''listeners.json'') = Some la"
    by (cases "json_listeners E (metadata_dir pth, ''listeners.json'')")
       (auto simp: compute_haspi_for_signal_def)
  from assms p l obtain a where a: "la listener = Some a"
    by (cases "la listener") (auto simp: compute_haspi_for_signal_def)
  from assms p l a obtain fs_proc proc0 where
    wp: "wav_files E (signal_dir pth, signal_name @ ''.wav'') = Some (fs_proc, proc0)"
    by (cases "wav_files E (signal_dir pth, signal_name @ ''.wav'')")
       (auto simp: compute_haspi_for_signal_def)
  from assms p l a wp obtain fs_ref ref0 where
    wr: "wav_files E (scene_dir pth, scene @ ''_target_ref.wav'') = Some (fs_ref, ref0)"
    by (cases "wav_files E (scene_dir pth, scene @ ''_target_ref.wav'')")
       (auto simp: compute_haspi_for_signal_def)
  have fs: "fs_ref = fs_proc"
    using assms p l a wp wr by (auto simp: compute_haspi_for_signal_def split: if_splits)
  from assms p l a wp wr fs obtain rl rr pl pr where
    cols: "column (div_32768 ref0) 0 = Inr rl" "column (div_32768 ref0) 1 = Inr rr"
          "column (div_32768 proc0) 0 = Inr pl" "column (div_32768 proc0) 1 = Inr pr"
    and r: "r = haspi_v2_be L
                 \<lparr>reference_left = rl, reference_right = rr,
                  processed_left = pl, processed_right = pr,
                  fs_signal = fs_proc,
                  audiogram_left = audiogram_levels_l a,
                  audiogram_right = audiogram_levels_r a,
                  audiogram_cfs_arg = audiogram_cfs a\<rparr> g"
    by (auto simp: compute_haspi_for_signal_def Let_def split: sum.splits)
  from column_div_32768 [OF cols(2)] obtain ref where
    ref: "ref0 = Arr2 ref" "1 < length ref"
         "rr = map (\<lambda>s. real_of_int (sint s) / 32768) (ref ! 1)"
    by blast
  from column_div_32768 [OF cols(1)] ref(1) have
    rl: "rl = map (\<lambda>s. real_of_int (sint s) / 32768) (ref ! 0)" by auto
  from column_div_32768 [OF cols(4)] obtain proc where
    proc: "proc0 = Arr2 proc" "1 < length proc"
         "pr = map (\<lambda>s. real_of_int (sint s) / 32768) (proc ! 1)"
    by blast
  from column_div_32768 [OF cols(3)] proc(1) have
    pl: "pl = map (\<lambda>s. real_of_int (sint s) / 32768) (proc ! 0)" by auto
  have len: "2 \<le> length proc" "2 \<le> length ref" using ref(2) proc(2) by simp_all
  have range: "\<forall>chan \<in> set [ref ! 0, ref ! 1, proc ! 0, proc ! 1]. \<forall>s \<in> set chan.
               - 1 \<le> real_of_int (sint s) / 32768 \<and> real_of_int (sint s) / 32768 \<le> 1"
    using sample_range by blast
  show ?thesis
    using p l a wp wr fs ref(1) proc(1) len r rl ref(3) pl proc(3) range
    by (intro exI [of _ scene] exI [of _ listener] exI [of _ system] exI [of _ la]
              exI [of _ a] exI [of _ fs_proc] exI [of _ proc] exI [of _ ref])
       (simp only: simp_thms)
qed

theorem compute_haspi_for_signal_normalises_witness:
  "compute_haspi_for_signal probe_lib (example_env []) example_path ''S0001_L0001_E001'' 0
     = Inr (16383 / 16384, 0)"
proof -
  have h: "compute_haspi_for_signal probe_lib (example_env []) example_path ''S0001_L0001_E001'' 0
     = Inr (16383 / 16384, 0)"
    by (simp add: compute_haspi_for_signal_def parse_cec2_signal_name_def example_env_def
          example_path_def probe_lib_def example_lib_def div_32768_def)
  show ?thesis using compute_haspi_for_signal_normalises [OF h] h by simp
qed

subsection \<open>Score computation\<close>

text \<open>
  Claim C6, as the code has it. For a signal whose name parses, whose listener has an
  audiogram and whose two WAV files are present with at least two channels each, the
  computation raises (the assertion) exactly when the sample rates differ, and with
  equal rates returns what the scorer returns for the first two channels of the
  normalised reference and processed signals, the sample rate and the audiogram.
\<close>

theorem compute_haspi_for_signal_stereo:
  assumes "parse_cec2_signal_name signal_name = Inr (scene, listener, system)"
    and "json_listeners E (metadata_dir pth, ''listeners.json'') = Some listener_audiograms"
    and "listener_audiograms listener = Some a"
    and "wav_files E (signal_dir pth, signal_name @ ''.wav'') = Some (fs_proc, Arr2 proc)"
    and "wav_files E (scene_dir pth, scene @ ''_target_ref.wav'') = Some (fs_ref, Arr2 ref)"
    and "2 \<le> length proc" and "2 \<le> length ref"
  shows "compute_haspi_for_signal L E pth signal_name g =
           (if fs_ref = fs_proc
            then Inr (haspi_v2_be L
                   \<lparr>reference_left = map (\<lambda>s. real_of_int (sint s) / 32768) (ref ! 0),
                    reference_right = map (\<lambda>s. real_of_int (sint s) / 32768) (ref ! 1),
                    processed_left = map (\<lambda>s. real_of_int (sint s) / 32768) (proc ! 0),
                    processed_right = map (\<lambda>s. real_of_int (sint s) / 32768) (proc ! 1),
                    fs_signal = fs_proc,
                    audiogram_left = audiogram_levels_l a,
                    audiogram_right = audiogram_levels_r a,
                    audiogram_cfs_arg = audiogram_cfs a\<rparr> g)
            else Inl AssertionError)
         \<and> ((\<exists>e. compute_haspi_for_signal L E pth signal_name g = Inl e) \<longleftrightarrow> fs_ref \<noteq> fs_proc)"
proof -
  have "0 < length proc" "1 < length proc" "0 < length ref" "1 < length ref"
    using assms(6,7) by auto
  then show ?thesis
    using assms(1-5) by (simp add: compute_haspi_for_signal_def div_32768_def del: length_greater_0_conv)
qed

theorem compute_haspi_for_signal_stereo_witness:
  "compute_haspi_for_signal example_lib (example_env []) example_path ''S0001_L0001_E001'' 0
     = Inr (1 / 2, 1)"
proof -
  have p: "parse_cec2_signal_name ''S0001_L0001_E001'' = Inr (''S0001'', ''L0001'', ''E001'')"
    by (simp add: parse_cec2_signal_name_def)
  have l: "json_listeners (example_env []) (metadata_dir example_path, ''listeners.json'')
             = Some (\<lambda>l. Some example_audiogram)"
    by (simp add: example_env_def example_path_def)
  have a: "(\<lambda>l. Some example_audiogram) ''L0001'' = Some example_audiogram" by simp
  have w1: "wav_files (example_env []) (signal_dir example_path, ''S0001_L0001_E001'' @ ''.wav'')
             = Some (16000, Arr2 [[0, 16384], [- 32768, 32767]])"
    by (simp add: example_env_def)
  have w2: "wav_files (example_env []) (scene_dir example_path, ''S0001'' @ ''_target_ref.wav'')
             = Some (16000, Arr2 [[0, 16384], [- 32768, 32767]])"
    by (simp add: example_env_def)
  have n: "2 \<le> length [[0, 16384], [- 32768, 32767 :: 16 word]]" by simp
  show ?thesis
    using compute_haspi_for_signal_stereo [OF p l a w1 w2 n n, of example_lib 0]
    by (simp add: example_lib_def)
qed

text \<open>
  Claim C6 as stated fails: with the audiogram and both WAV files present and equal
  sample rates, mono files make the computation raise \<^verbatim>\<open>IndexError\<close> at the
  channel selection, which the source does not guard.
\<close>

theorem compute_haspi_for_signal_mono_counterexample:
  "parse_cec2_signal_name ''S0001_L0001_E001'' = Inr (''S0001'', ''L0001'', ''E001'')
   \<and> json_listeners mono_env (metadata_dir example_path, ''listeners.json'')
       = Some [''L0001'' \<mapsto> example_audiogram]
   \<and> wav_files mono_env (signal_dir example_path, ''S0001_L0001_E001.wav'')
       = Some (16000, Arr1 [0, 16384])
   \<and> wav_files mono_env (scene_dir example_path, ''S0001_target_ref.wav'')
       = Some (16000, Arr1 [0, 16384])
   \<and> compute_haspi_for_signal example_lib mono_env example_path ''S0001_L0001_E001'' 0
       = Inl IndexError"
  by (simp add: compute_haspi_for_signal_def parse_cec2_signal_name_def mono_env_def
        example_path_def div_32768_def)

subsection \<open>Sharding\<close>

lemma shift_multiples:
  assumes "0 < k"
  shows "{j. Suc j mod k = 0} = (+) (k - 1) ` {i. i mod k = 0}"
proof (rule set_eqI, rule iffI)
  fix j assume "j \<in> {j. Suc j mod k = 0}"
  then have m: "Suc j mod k = 0" by simp
  then have "k dvd Suc j" by (simp add: dvd_eq_mod_eq_0)
  then have le: "k \<le> Suc j" by (rule dvd_imp_le) simp
  define i where "i = Suc j - k"
  have j: "j = (k - 1) + i" using assms le by (simp add: i_def)
  have "i mod k = 0" using m le_mod_geq [OF le] by (simp add: i_def)
  then have "i \<in> {i. i mod k = 0}" by simp
  then show "j \<in> (+) (k - 1) ` {i. i mod k = 0}" unfolding j by (rule imageI)
next
  fix j assume "j \<in> (+) (k - 1) ` {i. i mod k = 0}"
  then obtain i where i0: "i \<in> {i. i mod k = 0}" and j: "j = (k - 1) + i" by (rule imageE)
  from i0 have i: "i mod k = 0" by simp
  have "Suc j = k + i" using assms by (simp add: j)
  then have "Suc j mod k = 0" using i by simp
  then show "j \<in> {j. Suc j mod k = 0}" by simp
qed

lemma take_every_nths:
  "0 < k \<Longrightarrow> take_every k xs = nths xs {i. i mod k = 0}"
proof (induction k xs rule: take_every.induct)
  case (1 k)
  then show ?case by simp
next
  case (2 k x xs)
  then show ?case
    by (simp add: nths_Cons nths_drop shift_multiples)
qed

lemma residue_class_shift:
  assumes "lo < (k::nat)"
  shows "(+) lo ` {i. i mod k = 0} = {i. i mod k = lo}"
proof (rule set_eqI, rule iffI)
  fix j assume "j \<in> (+) lo ` {i. i mod k = 0}"
  then obtain i where i0: "i \<in> {i. i mod k = 0}" and j: "j = lo + i" by (rule imageE)
  from i0 have i: "i mod k = 0" by simp
  have "(lo + i) mod k = (lo + i mod k) mod k" by (rule mod_add_right_eq [symmetric])
  then have "j mod k = lo" using assms i by (simp add: j)
  then show "j \<in> {i. i mod k = lo}" by simp
next
  fix j assume "j \<in> {i. i mod k = lo}"
  then have m: "j mod k = lo" by simp
  define i where "i = k * (j div k)"
  have "j = j mod k + k * (j div k)" by simp
  then have j: "j = lo + i" by (simp only: m i_def)
  have "i \<in> {i. i mod k = 0}" by (simp add: i_def)
  then show "j \<in> (+) lo ` {i. i mod k = 0}" unfolding j by (rule imageI)
qed

lemma shard_class_nat:
  assumes "1 \<le> n" "1 \<le> b" "b \<le> n"
  shows "{i. int i mod n = b - 1} = {i. i mod nat n = nat (b - 1)}"
proof (rule set_eqI)
  fix i :: nat
  have n: "n = int (nat n)" and b: "b - 1 = int (nat (b - 1))" using assms by simp_all
  have "int i mod int (nat n) = int (i mod nat n)" by (rule zmod_int [symmetric])
  then have "int i mod n = int (i mod nat n)" using n by simp
  then have "(int i mod n = b - 1) \<longleftrightarrow> (int (i mod nat n) = int (nat (b - 1)))"
    using b by (simp only:)
  then show "i \<in> {i. int i mod n = b - 1} \<longleftrightarrow> i \<in> {i. i mod nat n = nat (b - 1)}"
    by (simp only: mem_Collect_eq of_nat_eq_iff)
qed

lemma py_slice_from_shard:
  assumes "1 \<le> n" "1 \<le> b" "b \<le> n"
  shows "py_slice_from xs (b - 1) n = Inr (nths xs {i. int i mod n = b - 1})"
proof -
  define k where "k = nat n"
  define lo where "lo = nat (b - 1)"
  have k: "0 < k" "lo < k" using assms by (simp_all add: k_def lo_def)
  have sets: "{i. int i mod n = b - 1} = {i. i mod k = lo}"
    unfolding k_def lo_def using assms by (rule shard_class_nat)
  have start: "\<not> b - 1 < 0" "0 < n" "n \<noteq> 0" using assms by simp_all
  show ?thesis
  proof (cases "lo \<le> length xs")
    case True
    then have "min (b - 1) (int (length xs)) = int lo" using assms by (simp add: lo_def)
    then have "py_slice_from xs (b - 1) n = Inr (take_every k (drop lo xs))"
      using start by (simp add: py_slice_from_def Let_def k_def)
    also have "take_every k (drop lo xs) = nths xs {i. i mod k = lo}"
      using k by (simp add: take_every_nths nths_drop residue_class_shift)
    finally show ?thesis using sets by simp
  next
    case False
    then have "min (b - 1) (int (length xs)) = int (length xs)" using assms by (simp add: lo_def)
    then have "py_slice_from xs (b - 1) n = Inr []"
      using start by (simp add: py_slice_from_def Let_def)
    moreover have "nths xs {i. i mod k = lo} = []"
    proof -
      have "i mod k \<noteq> lo" if "i < length xs" for i
      proof -
        have "i mod k \<le> i" by (rule mod_less_eq_dividend)
        then show ?thesis using that False by linarith
      qed
      then have "set (nths xs {i. i mod k = lo}) = {}" by (auto simp: set_nths)
      then show ?thesis by (simp only: set_empty)
    qed
    ultimately show ?thesis using sets by simp
  qed
qed

lemma sum_list_none:
  "\<forall>b \<in> set bs. \<not> P b \<Longrightarrow> (\<Sum>b\<leftarrow>bs. if P b then {#x#} else {#}) = {#}"
  by (induction bs) simp_all

lemma sum_list_single:
  "distinct bs \<Longrightarrow> c \<in> set bs \<Longrightarrow> P c \<Longrightarrow> \<forall>b \<in> set bs. P b \<longrightarrow> b = c \<Longrightarrow>
     (\<Sum>b\<leftarrow>bs. if P b then {#x#} else {#}) = {#x#}"
proof (induction bs)
  case Nil
  then show ?case by simp
next
  case (Cons a bs)
  show ?case
  proof (cases "P a")
    case True
    then have ac: "a = c" using Cons.prems(4) by simp
    have "\<not> P b" if "b \<in> set bs" for b
    proof
      assume "P b"
      then have "b = c" using that Cons.prems(4) by simp
      then show False using that ac Cons.prems(1) by simp
    qed
    then have "(\<Sum>b\<leftarrow>bs. if P b then {#x#} else {#}) = {#}"
      by (intro sum_list_none) blast
    then show ?thesis using True by simp
  next
    case False
    then have "a \<noteq> c" using Cons.prems(3) by blast
    then have "c \<in> set bs" using Cons.prems(2) by simp
    moreover have "distinct bs" using Cons.prems(1) by simp
    moreover have "\<forall>b \<in> set bs. P b \<longrightarrow> b = c" using Cons.prems(4) by simp
    ultimately have "(\<Sum>b\<leftarrow>bs. if P b then {#x#} else {#}) = {#x#}"
      using Cons.IH Cons.prems(3) by blast
    then show ?thesis using False by simp
  qed
qed

lemma mset_nths_partition:
  "distinct bs \<Longrightarrow> \<forall>i. \<exists>c \<in> set bs. i \<in> A c \<and> (\<forall>b \<in> set bs. i \<in> A b \<longrightarrow> b = c) \<Longrightarrow>
     (\<Sum>b\<leftarrow>bs. mset (nths xs (A b))) = mset xs"
proof (induction xs arbitrary: A)
  case Nil
  show ?case by (induction bs) simp_all
next
  case (Cons x xs)
  let ?A' = "\<lambda>b. {j. Suc j \<in> A b}"
  have part': "\<forall>i. \<exists>c \<in> set bs. i \<in> ?A' c \<and> (\<forall>b \<in> set bs. i \<in> ?A' b \<longrightarrow> b = c)"
  proof
    fix i
    from Cons.prems(2) have "\<exists>c \<in> set bs. Suc i \<in> A c \<and> (\<forall>b \<in> set bs. Suc i \<in> A b \<longrightarrow> b = c)"
      by (rule spec)
    then obtain c where c: "c \<in> set bs" "Suc i \<in> A c"
      "\<forall>b \<in> set bs. Suc i \<in> A b \<longrightarrow> b = c" by (elim bexE conjE)
    have "i \<in> ?A' c \<and> (\<forall>b \<in> set bs. i \<in> ?A' b \<longrightarrow> b = c)"
      using c(2,3) by (simp only: mem_Collect_eq)
    with c(1) show "\<exists>c \<in> set bs. i \<in> ?A' c \<and> (\<forall>b \<in> set bs. i \<in> ?A' b \<longrightarrow> b = c)"
      by (rule rev_bexI)
  qed
  have ih: "(\<Sum>b\<leftarrow>bs. mset (nths xs (?A' b))) = mset xs"
    using Cons.IH [OF Cons.prems(1) part'] .
  from Cons.prems(2) have "\<exists>c \<in> set bs. 0 \<in> A c \<and> (\<forall>b \<in> set bs. 0 \<in> A b \<longrightarrow> b = c)"
    by (rule spec)
  then obtain c where c: "c \<in> set bs" "0 \<in> A c" "\<forall>b \<in> set bs. 0 \<in> A b \<longrightarrow> b = c"
    by (elim bexE conjE)
  have hd: "(\<Sum>b\<leftarrow>bs. if 0 \<in> A b then {#x#} else {#}) = {#x#}"
    using Cons.prems(1) c by (rule sum_list_single)
  have "map (\<lambda>b. mset (nths (x # xs) (A b))) bs
          = map (\<lambda>b. (if 0 \<in> A b then {#x#} else {#}) + mset (nths xs (?A' b))) bs"
    by (rule map_cong) (simp_all add: nths_Cons)
  then have "(\<Sum>b\<leftarrow>bs. mset (nths (x # xs) (A b)))
          = (\<Sum>b\<leftarrow>bs. (if 0 \<in> A b then {#x#} else {#}) + mset (nths xs (?A' b)))"
    by (simp only:)
  also have "\<dots> = (\<Sum>b\<leftarrow>bs. if 0 \<in> A b then {#x#} else {#}) + (\<Sum>b\<leftarrow>bs. mset (nths xs (?A' b)))"
    by (rule sum_list_addf)
  also have "\<dots> = {#x#} + mset xs" by (simp only: hd ih)
  finally show ?case by simp
qed

lemma shard_classes_partition:
  assumes "1 \<le> (n::int)"
  shows "\<exists>c \<in> set [1..n]. i \<in> {i. int i mod n = c - 1}
           \<and> (\<forall>b \<in> set [1..n]. i \<in> {i. int i mod n = b - 1} \<longrightarrow> b = c)"
proof -
  have "0 \<le> int i mod n" "int i mod n < n" using assms by simp_all
  then have "int i mod n + 1 \<in> set [1..n]" by simp
  then show ?thesis by (intro bexI [of _ "int i mod n + 1"]) auto
qed

lemma select_records_fresh:
  assumes "1 \<le> n" "1 \<le> b" "b \<le> n"
    and "\<forall>r \<in> set records. signal r \<notin> signal ` set results"
  shows "select_records records results b n = Inr (nths records {i. int i mod n = b - 1})"
proof -
  have "filter (\<lambda>record. signal record \<notin> set (map signal results)) records = records"
    using assms(4) by (simp add: filter_id_conv)
  then show ?thesis
    using py_slice_from_shard [OF assms(1-3), of records]
    by (simp add: select_records_def)
qed

text \<open>
  Claim C1, as the code has it. The shard is cut from the records that are left after
  the already scored ones are dropped, and with more than one batch every shard \<open>b\<close>
  reads its own results file, \<open>results_of b\<close>. When no results file holds a signal
  of the manifest, shard \<open>b\<close> of \<open>n\<close> (\<open>1 \<le> b \<le> n\<close>) selects exactly the records
  at the manifest positions \<open>i\<close> with \<open>i mod n = b - 1\<close>, the selections of the shards
  \<open>1..n\<close> together hold every manifest record exactly once, and every position belongs
  to exactly one shard.
\<close>

theorem select_records_shards:
  assumes "1 \<le> n"
    and "\<forall>b r. 1 \<le> b \<and> b \<le> n \<and> r \<in> set records \<longrightarrow> signal r \<notin> signal ` set (results_of b)"
  shows "(\<forall>b. 1 \<le> b \<and> b \<le> n \<longrightarrow>
            select_records records (results_of b) b n = Inr (nths records {i. int i mod n = b - 1}))
       \<and> (\<Sum>b\<leftarrow>[1..n]. mset (case select_records records (results_of b) b n of
                                Inr selected \<Rightarrow> selected | Inl e \<Rightarrow> [])) = mset records
       \<and> (\<forall>i. \<exists>!b. 1 \<le> b \<and> b \<le> n \<and> int i mod n = b - 1)"
proof (intro conjI)
  have sel: "select_records records (results_of b) b n = Inr (nths records {i. int i mod n = b - 1})"
    if "1 \<le> b" "b \<le> n" for b
  proof -
    have "\<forall>r \<in> set records. signal r \<notin> signal ` set (results_of b)"
      using assms(2) that by blast
    with assms(1) that show ?thesis by (rule select_records_fresh)
  qed
  then show "\<forall>b. 1 \<le> b \<and> b \<le> n \<longrightarrow>
            select_records records (results_of b) b n = Inr (nths records {i. int i mod n = b - 1})"
    by blast
  have "map (\<lambda>b. mset (case select_records records (results_of b) b n of
                          Inr selected \<Rightarrow> selected | Inl e \<Rightarrow> [])) [1..n]
          = map (\<lambda>b. mset (nths records {i. int i mod n = b - 1})) [1..n]"
    by (rule map_cong) (simp_all add: sel)
  moreover have "(\<Sum>b\<leftarrow>[1..n]. mset (nths records {i. int i mod n = b - 1})) = mset records"
  proof (rule mset_nths_partition)
    show "distinct [1..n]" by simp
    show "\<forall>i. \<exists>c \<in> set [1..n]. i \<in> {i. int i mod n = c - 1}
           \<and> (\<forall>b \<in> set [1..n]. i \<in> {i. int i mod n = b - 1} \<longrightarrow> b = c)"
      using shard_classes_partition [OF assms(1)] by (rule allI)
  qed
  ultimately show "(\<Sum>b\<leftarrow>[1..n]. mset (case select_records records (results_of b) b n of
                                Inr selected \<Rightarrow> selected | Inl e \<Rightarrow> [])) = mset records"
    by (simp only:)
  show "\<forall>i. \<exists>!b. 1 \<le> b \<and> b \<le> n \<and> int i mod n = b - 1"
  proof
    fix i
    have "0 \<le> int i mod n" "int i mod n < n" using assms(1) by simp_all
    then show "\<exists>!b. 1 \<le> b \<and> b \<le> n \<and> int i mod n = b - 1"
      by (intro ex1I [of _ "int i mod n + 1"]) linarith+
  qed
qed

theorem select_records_shards_witness:
  "select_records [\<lparr>signal = ''S1_L1_A''\<rparr>, \<lparr>signal = ''S1_L1_B''\<rparr>, \<lparr>signal = ''S1_L1_C''\<rparr>,
                   \<lparr>signal = ''S1_L1_D''\<rparr>, \<lparr>signal = ''S1_L1_E''\<rparr>]
                  ([] :: real result list) 1 2
     = Inr [\<lparr>signal = ''S1_L1_A''\<rparr>, \<lparr>signal = ''S1_L1_C''\<rparr>, \<lparr>signal = ''S1_L1_E''\<rparr>]
   \<and> select_records [\<lparr>signal = ''S1_L1_A''\<rparr>, \<lparr>signal = ''S1_L1_B''\<rparr>, \<lparr>signal = ''S1_L1_C''\<rparr>,
                   \<lparr>signal = ''S1_L1_D''\<rparr>, \<lparr>signal = ''S1_L1_E''\<rparr>]
                  ([] :: real result list) 2 2
     = Inr [\<lparr>signal = ''S1_L1_B''\<rparr>, \<lparr>signal = ''S1_L1_D''\<rparr>]"
proof -
  have h1: "(1::int) \<le> 2" by simp
  have h2: "\<forall>b r. 1 \<le> b \<and> b \<le> (2::int) \<and>
              r \<in> set [\<lparr>signal = ''S1_L1_A''\<rparr>, \<lparr>signal = ''S1_L1_B''\<rparr>, \<lparr>signal = ''S1_L1_C''\<rparr>,
                        \<lparr>signal = ''S1_L1_D''\<rparr>, \<lparr>signal = ''S1_L1_E''\<rparr>]
              \<longrightarrow> signal r \<notin> signal ` set ((\<lambda>b. ([] :: real result list)) b)"
    by simp
  show ?thesis
    using select_records_shards [OF h1 h2, THEN conjunct1]
    by (simp add: select_records_def py_slice_from_def)
qed

text \<open>
  Claim C1 as stated fails once the results file of the shard holds a signal of the
  manifest: with the first of three signals already scored, shard 1 of 2 selects the
  signal at manifest position 1, and \<open>1 mod 2\<close> is not \<open>1 - 1\<close>.
\<close>

theorem select_records_resumed_counterexample:
  "select_records [\<lparr>signal = ''S1_L1_A''\<rparr>, \<lparr>signal = ''S1_L1_B''\<rparr>, \<lparr>signal = ''S1_L1_C''\<rparr>]
                  [\<lparr>signal = ''S1_L1_A'', haspi = (1 / 2 :: real)\<rparr>] 1 2
     = Inr [\<lparr>signal = ''S1_L1_B''\<rparr>]
   \<and> [\<lparr>signal = ''S1_L1_A''\<rparr>, \<lparr>signal = ''S1_L1_B''\<rparr>, \<lparr>signal = ''S1_L1_C''\<rparr>] ! 1
       = \<lparr>signal = ''S1_L1_B''\<rparr>
   \<and> int 1 mod 2 \<noteq> 1 - 1"
  by (simp add: select_records_def py_slice_from_def)

subsection \<open>The batch driver\<close>

lemma file_records_write_jsonl_same:
  "file_records (write_jsonl L rf rs w) rf = file_records w rf @ rs"
  by (simp add: write_jsonl_def file_records_def)

lemma jsonl_files_write_jsonl_other:
  "p \<noteq> rf \<Longrightarrow> jsonl_files (write_jsonl L rf rs w) p = jsonl_files w p"
  by (simp add: write_jsonl_def)

lemma haspi_calls_write_jsonl: "haspi_calls (write_jsonl L rf rs w) = haspi_calls w"
  by (simp add: write_jsonl_def)

lemma fp_writes_write_jsonl:
  "fp_writes (write_jsonl L rf rs w)
     = fp_writes w @ map (\<lambda>record. (rf, json_dumps_result L record @ [CHR 0x0A])) rs"
  by (simp add: write_jsonl_def)

lemma file_records_rng_update: "file_records (w\<lparr>rng := g\<rparr>) p = file_records w p"
  by (simp add: file_records_def)

lemma file_records_haspi_calls_update:
  "file_records (w\<lparr>haspi_calls := cs\<rparr>) p = file_records w p"
  by (simp add: file_records_def)

lemma score_loop_Cons:
  "score_loop L E c rf (r # rs) w =
     (if set_random_seed (compute_haspi c) \<and> has_surrogate (signal r)
      then (Inl UnicodeEncodeError, w)
      else
       (let w2 = (if set_random_seed (compute_haspi c)
                  then w\<lparr>rng := seed_state L (nat (seed_of L (signal r)))\<rparr> else w)
                  \<lparr>haspi_calls := haspi_calls w @ [signal r]\<rparr>
        in case compute_haspi_for_signal L E (path c) (signal r) (rng w2) of
             Inl e \<Rightarrow> (Inl e, w2)
           | Inr (score, g) \<Rightarrow>
               score_loop L E c rf rs
                 (write_jsonl L rf [\<lparr>signal = signal r, haspi = score\<rparr>] (w2\<lparr>rng := g\<rparr>))))"
  by (cases "has_surrogate (signal r)")
     (simp_all add: set_seed_with_string_ok set_seed_with_string_surrogate Let_def)

lemma score_loop_effect:
  "score_loop L E c rf sel w = (out, w') \<Longrightarrow>
     \<exists>k scores. k \<le> length sel \<and> length scores = k
       \<and> file_records w' rf = file_records w rf
            @ map (\<lambda>(r, h). \<lparr>signal = signal r, haspi = h\<rparr>) (zip (take k sel) scores)
       \<and> (\<forall>p. p \<noteq> rf \<longrightarrow> jsonl_files w' p = jsonl_files w p)
       \<and> fp_writes w' = fp_writes w
            @ map (\<lambda>(r, h). (rf, json_dumps_result L \<lparr>signal = signal r, haspi = h\<rparr> @ [CHR 0x0A]))
                (zip (take k sel) scores)
       \<and> (\<forall>(r, h) \<in> set (zip (take k sel) scores).
             \<exists>g g'. compute_haspi_for_signal L E (path c) (signal r) g = Inr (h, g'))
       \<and> (case out of
             Inr u \<Rightarrow> k = length sel \<and> haspi_calls w' = haspi_calls w @ map signal sel
           | Inl e \<Rightarrow> k < length sel
               \<and> ((haspi_calls w' = haspi_calls w @ map signal (take (Suc k) sel)
                     \<and> (\<exists>g. compute_haspi_for_signal L E (path c) (signal (sel ! k)) g = Inl e))
                  \<or> (haspi_calls w' = haspi_calls w @ map signal (take k sel)
                     \<and> set_random_seed (compute_haspi c) \<and> has_surrogate (signal (sel ! k))
                     \<and> e = UnicodeEncodeError)))"
proof (induction sel arbitrary: w)
  case Nil
  then have "out = Inr ()" "w' = w" by simp_all
  then show ?case by (intro exI [of _ 0] exI [of _ "[]"]) simp
next
  case (Cons r rs)
  show ?case
  proof (cases "set_random_seed (compute_haspi c) \<and> has_surrogate (signal r)")
    case True
    then have "out = Inl UnicodeEncodeError" "w' = w"
      using Cons.prems unfolding score_loop_Cons by simp_all
    then show ?thesis using True by (intro exI [of _ 0] exI [of _ "[]"]) simp
  next
    case noraise: False
    define w2 where "w2 = (if set_random_seed (compute_haspi c)
                  then w\<lparr>rng := seed_state L (nat (seed_of L (signal r)))\<rparr> else w)
                  \<lparr>haspi_calls := haspi_calls w @ [signal r]\<rparr>"
    have w2: "file_records w2 rf = file_records w rf" "jsonl_files w2 = jsonl_files w"
      "haspi_calls w2 = haspi_calls w @ [signal r]" "fp_writes w2 = fp_writes w"
      by (simp_all add: w2_def file_records_rng_update file_records_haspi_calls_update)
    have step: "score_loop L E c rf (r # rs) w =
        (case compute_haspi_for_signal L E (path c) (signal r) (rng w2) of
             Inl e \<Rightarrow> (Inl e, w2)
           | Inr (score, g) \<Rightarrow>
               score_loop L E c rf rs
                 (write_jsonl L rf [\<lparr>signal = signal r, haspi = score\<rparr>] (w2\<lparr>rng := g\<rparr>)))"
      using noraise unfolding score_loop_Cons w2_def by (simp add: Let_def)
    show ?thesis
    proof (cases "compute_haspi_for_signal L E (path c) (signal r) (rng w2)")
      case (Inl e)
      then have "out = Inl e" "w' = w2"
        using Cons.prems unfolding step by simp_all
      moreover have "\<exists>g. compute_haspi_for_signal L E (path c) (signal r) g = Inl e"
        using Inl by (rule exI)
      ultimately show ?thesis using w2 by (intro exI [of _ 0] exI [of _ "[]"]) simp
    next
      case (Inr sg)
      obtain score g where sg: "sg = (score, g)" by (cases sg)
      define w3 where "w3 = write_jsonl L rf [\<lparr>signal = signal r, haspi = score\<rparr>] (w2\<lparr>rng := g\<rparr>)"
      have w3: "file_records w3 rf = file_records w rf @ [\<lparr>signal = signal r, haspi = score\<rparr>]"
        "\<And>p. p \<noteq> rf \<Longrightarrow> jsonl_files w3 p = jsonl_files w p"
        "haspi_calls w3 = haspi_calls w @ [signal r]"
        "fp_writes w3 = fp_writes w
           @ [(rf, json_dumps_result L \<lparr>signal = signal r, haspi = score\<rparr> @ [CHR 0x0A])]"
        using w2
        by (simp_all add: w3_def file_records_write_jsonl_same jsonl_files_write_jsonl_other
              haspi_calls_write_jsonl fp_writes_write_jsonl file_records_rng_update)
      have head: "\<exists>g g'. compute_haspi_for_signal L E (path c) (signal r) g = Inr (score, g')"
        using Inr sg by blast
      have "score_loop L E c rf rs w3 = (out, w')"
        using Cons.prems Inr sg unfolding step w3_def by simp
      from Cons.IH [OF this] obtain k scores where ih:
        "k \<le> length rs" "length scores = k"
        "file_records w' rf = file_records w3 rf
              @ map (\<lambda>(r, h). \<lparr>signal = signal r, haspi = h\<rparr>) (zip (take k rs) scores)"
        "\<forall>p. p \<noteq> rf \<longrightarrow> jsonl_files w' p = jsonl_files w3 p"
        "fp_writes w' = fp_writes w3
            @ map (\<lambda>(r, h). (rf, json_dumps_result L \<lparr>signal = signal r, haspi = h\<rparr> @ [CHR 0x0A]))
                (zip (take k rs) scores)"
        "\<forall>(r, h) \<in> set (zip (take k rs) scores).
               \<exists>g g'. compute_haspi_for_signal L E (path c) (signal r) g = Inr (h, g')"
        "case out of
               Inr u \<Rightarrow> k = length rs \<and> haspi_calls w' = haspi_calls w3 @ map signal rs
             | Inl e \<Rightarrow> k < length rs
               \<and> ((haspi_calls w' = haspi_calls w3 @ map signal (take (Suc k) rs)
                     \<and> (\<exists>g. compute_haspi_for_signal L E (path c) (signal (rs ! k)) g = Inl e))
                  \<or> (haspi_calls w' = haspi_calls w3 @ map signal (take k rs)
                     \<and> set_random_seed (compute_haspi c) \<and> has_surrogate (signal (rs ! k))
                     \<and> e = UnicodeEncodeError))"
        by blast
      show ?thesis
      proof (intro exI [of _ "Suc k"] exI [of _ "score # scores"] conjI)
        show "Suc k \<le> length (r # rs)" using ih(1) by simp
        show "length (score # scores) = Suc k" using ih(2) by simp
        show "file_records w' rf = file_records w rf
              @ map (\<lambda>(r, h). \<lparr>signal = signal r, haspi = h\<rparr>) (zip (take (Suc k) (r # rs)) (score # scores))"
          using ih(3) w3(1) by simp
        show "\<forall>p. p \<noteq> rf \<longrightarrow> jsonl_files w' p = jsonl_files w p"
          using ih(4) w3(2) by simp
        show "fp_writes w' = fp_writes w
            @ map (\<lambda>(r, h). (rf, json_dumps_result L \<lparr>signal = signal r, haspi = h\<rparr> @ [CHR 0x0A]))
                (zip (take (Suc k) (r # rs)) (score # scores))"
          using ih(5) w3(4) by simp
        show "\<forall>(r, h) \<in> set (zip (take (Suc k) (r # rs)) (score # scores)).
               \<exists>g g'. compute_haspi_for_signal L E (path c) (signal r) g = Inr (h, g')"
          using ih(6) head by simp
        show "case out of
               Inr u \<Rightarrow> Suc k = length (r # rs) \<and> haspi_calls w' = haspi_calls w @ map signal (r # rs)
             | Inl e \<Rightarrow> Suc k < length (r # rs)
               \<and> ((haspi_calls w' = haspi_calls w @ map signal (take (Suc (Suc k)) (r # rs))
                     \<and> (\<exists>g. compute_haspi_for_signal L E (path c) (signal ((r # rs) ! Suc k)) g = Inl e))
                  \<or> (haspi_calls w' = haspi_calls w @ map signal (take (Suc k) (r # rs))
                     \<and> set_random_seed (compute_haspi c) \<and> has_surrogate (signal ((r # rs) ! Suc k))
                     \<and> e = UnicodeEncodeError))"
          using ih(7) w3(3) by (cases out) simp_all
      qed
    qed
  qed
qed

lemma run_calculate_haspi_cases:
  "run_calculate_haspi L E c w =
     (case json_manifests E (metadata_dir (path c), dataset c @ ''.json'') of
        None \<Rightarrow> (Inl FileNotFoundError, w)
      | Some records \<Rightarrow>
          (case select_records records (file_records w (results_file c))
                  (batch (compute_haspi c)) (n_batches (compute_haspi c)) of
             Inl e \<Rightarrow> (Inl e, w)
           | Inr selected \<Rightarrow> score_loop L E c (results_file c) selected w))"
  by (auto simp: run_calculate_haspi_def read_jsonl_def file_records_def Let_def
           split: option.splits)

lemma set_take_every: "set (take_every k xs) \<subseteq> set xs"
proof (induction k xs rule: take_every.induct)
  case (1 k)
  show ?case by simp
next
  case (2 k x xs)
  have "set (drop (k - 1) xs) \<subseteq> set xs" by (rule set_drop_subset)
  with 2 show ?case by auto
qed

lemma set_py_slice_from: "py_slice_from xs start step = Inr ys \<Longrightarrow> set ys \<subseteq> set xs"
proof -
  assume a: "py_slice_from xs start step = Inr ys"
  have d: "set (take_every k (drop m xs)) \<subseteq> set xs" for k m
    using set_take_every [of k "drop m xs"] set_drop_subset [of m xs] by blast
  have t: "set (take_every k (rev (take m xs))) \<subseteq> set xs" for k m
    using set_take_every [of k "rev (take m xs)"] set_take_subset [of m xs] by auto
  from a show ?thesis
    by (auto simp: py_slice_from_def Let_def split: if_splits dest: subsetD [OF d] subsetD [OF t])
qed

lemma select_records_not_scored:
  assumes "select_records records results b n = Inr selected"
  shows "set selected \<subseteq> set records" and "\<forall>r \<in> set selected. signal r \<notin> signal ` set results"
proof -
  have "py_slice_from (filter (\<lambda>record. signal record \<notin> set (map signal results)) records)
          (b - 1) n = Inr selected"
    using assms by (simp add: select_records_def)
  then have "set selected \<subseteq> set (filter (\<lambda>record. signal record \<notin> set (map signal results)) records)"
    by (rule set_py_slice_from)
  then show "set selected \<subseteq> set records"
    and "\<forall>r \<in> set selected. signal r \<notin> signal ` set results" by auto
qed

lemma signal_zip_results:
  "length scores = length rs \<Longrightarrow>
     map signal (map (\<lambda>(r, h). \<lparr>signal = signal r, haspi = h\<rparr>) (zip rs scores)) = map signal rs"
  by (induction scores rs rule: list_induct2) simp_all

lemma py_slice_from_all: "py_slice_from xs 0 1 = Inr xs"
proof -
  have "py_slice_from xs (1 - 1) 1 = Inr (nths xs {i. int i mod 1 = 1 - 1})"
    by (rule py_slice_from_shard) simp_all
  moreover have "nths xs {i. int i mod 1 = 1 - 1} = xs"
    by (rule nths_all) simp
  ultimately show ?thesis by simp
qed

lemma select_records_single_batch:
  "select_records records results 1 1
     = Inr (filter (\<lambda>record. signal record \<notin> signal ` set results) records)"
  by (simp add: select_records_def py_slice_from_all)

lemma example_compute:
  "x \<noteq> CHR ''_'' \<Longrightarrow>
   compute_haspi_for_signal example_lib (example_env m) example_path
       [CHR ''S'', CHR ''1'', CHR ''_'', CHR ''L'', CHR ''1'', CHR ''_'', x] g
     = Inr (1 / 2, Suc g)"
  by (simp add: compute_haspi_for_signal_def parse_cec2_signal_name_def example_env_def
        example_path_def example_lib_def div_32768_def)

lemma example_manifest:
  "json_manifests (example_env m) (metadata_dir example_path, dataset (example_cfg b n) @ ''.json'')
     = Some m"
  by (simp add: example_env_def example_cfg_def example_path_def)

lemma example_cfg_fields:
  "path (example_cfg b n) = example_path"
  "batch (compute_haspi (example_cfg b n)) = b"
  "n_batches (compute_haspi (example_cfg b n)) = n"
  "set_random_seed (compute_haspi (example_cfg b n))"
  by (simp_all add: example_cfg_def)

lemma example_seed:
  assumes "length s < 10 ^ 8"
  shows "seed_state example_lib (nat (seed_of example_lib s)) = length s"
proof -
  have "length s < 2 ^ LENGTH(128)" using assms by simp
  then have "unat (of_nat (length s) :: 128 word) = length s"
    by (simp only: unat_of_nat mod_less)
  then have "uint (of_nat (length s) :: 128 word) = int (length s)"
    by (simp only: uint_nat)
  then have "seed_of example_lib s = int (length s)"
    using assms by (simp add: seed_of_def example_lib_def)
  then show ?thesis by (simp add: example_lib_def)
qed

lemma example_dumps:
  \<open>json_dumps_result example_lib \<lparr>signal = s, haspi = h\<rparr>
     = ''{"signal": "'' @ s @ ''", "haspi": 0.5}''\<close>
  by (simp add: json_dumps_result_def example_lib_def quote_plain_def show_half_def)

lemma example_results_file:
  "results_file (example_cfg 1 1) = ''train.haspi.jsonl''"
  "results_file (example_cfg 1 2) = ''train.haspi.1_2.jsonl''"
  by (simp_all add: results_file_def example_cfg_def str_int_def digit_char_def)

lemmas example_run_simps =
  run_calculate_haspi_cases example_manifest example_cfg_fields example_seed example_results_file
  example_compute select_records_def py_slice_from_def set_seed_with_string_ok Let_def
  write_jsonl_def file_records_def example_dumps

lemma example_run_resumed:
  "run_calculate_haspi example_lib
      (example_env [\<lparr>signal = ''S1_L1_A''\<rparr>, \<lparr>signal = ''S1_L1_B''\<rparr>]) (example_cfg 1 1) resumed_world
   = (Inr (),
      \<lparr>jsonl_files = [''train.haspi.jsonl'' \<mapsto>
          [\<lparr>signal = ''S1_L1_A'', haspi = 1 / 4\<rparr>, \<lparr>signal = ''S1_L1_B'', haspi = 1 / 2\<rparr>]],
       rng = 8, haspi_calls = [''S1_L1_B''],
       fp_writes = [(''train.haspi.jsonl'', json_dumps_result example_lib
                       \<lparr>signal = ''S1_L1_B'', haspi = 1 / 2\<rparr> @ [CHR 0x0A])]\<rparr>)"
  by (simp add: example_run_simps resumed_world_def)


text \<open>
  Claim C4: when the results file already holds a record for the signal \<open>s\<close>, a run
  (finished or aborted) only appends to the results file, appends no record for \<open>s\<close>
  and never calls the score computation for \<open>s\<close>.
\<close>

theorem run_calculate_haspi_skips_scored:
  assumes "s \<in> signal ` set (file_records w (results_file c))"
  shows "\<exists>new calls.
           file_records (snd (run_calculate_haspi L E c w)) (results_file c)
             = file_records w (results_file c) @ new
         \<and> s \<notin> signal ` set new
         \<and> haspi_calls (snd (run_calculate_haspi L E c w)) = haspi_calls w @ calls
         \<and> s \<notin> set calls"
proof -
  let ?rf = "results_file c"
  let ?run = "run_calculate_haspi L E c w"
  have stop: ?thesis if "snd ?run = w"
    using that by (intro exI [of _ "[]"]) simp
  show ?thesis
  proof (cases "json_manifests E (metadata_dir (path c), dataset c @ ''.json'')")
    case None
    then have "snd ?run = w" by (simp add: run_calculate_haspi_cases)
    then show ?thesis by (rule stop)
  next
    case (Some records)
    show ?thesis
    proof (cases "select_records records (file_records w ?rf)
                    (batch (compute_haspi c)) (n_batches (compute_haspi c))")
      case (Inl e)
      then have "snd ?run = w" using Some by (simp add: run_calculate_haspi_cases)
      then show ?thesis by (rule stop)
    next
      case (Inr selected)
      then have run: "score_loop L E c ?rf selected w = (fst ?run, snd ?run)"
        using Some by (simp add: run_calculate_haspi_cases)
      have fresh: "s \<notin> signal ` set selected"
      proof
        assume "s \<in> signal ` set selected"
        then obtain r where r: "r \<in> set selected" "s = signal r" by (rule imageE)
        have "signal r \<notin> signal ` set (file_records w ?rf)"
          using select_records_not_scored(2) [OF Inr] r(1) by (rule bspec)
        then show False using assms r(2) by (simp only:)
      qed
      from score_loop_effect [OF run] obtain k scores where eff:
        "k \<le> length selected" "length scores = k"
        "file_records (snd ?run) ?rf = file_records w ?rf
            @ map (\<lambda>(r, h). \<lparr>signal = signal r, haspi = h\<rparr>) (zip (take k selected) scores)"
        "case fst ?run of
             Inr u \<Rightarrow> k = length selected \<and> haspi_calls (snd ?run) = haspi_calls w @ map signal selected
           | Inl e \<Rightarrow> k < length selected
               \<and> ((haspi_calls (snd ?run) = haspi_calls w @ map signal (take (Suc k) selected)
                     \<and> (\<exists>g. compute_haspi_for_signal L E (path c) (signal (selected ! k)) g = Inl e))
                  \<or> (haspi_calls (snd ?run) = haspi_calls w @ map signal (take k selected)
                     \<and> set_random_seed (compute_haspi c) \<and> has_surrogate (signal (selected ! k))
                     \<and> e = UnicodeEncodeError))"
        by blast
      let ?new = "map (\<lambda>(r, h). \<lparr>signal = signal r, haspi = h\<rparr>) (zip (take k selected) scores)"
      have "map signal ?new = map signal (take k selected)"
        using eff(1,2) by (intro signal_zip_results) simp
      then have "signal ` set ?new = signal ` set (take k selected)"
        by (metis set_map)
      then have new: "s \<notin> signal ` set ?new"
        using fresh set_take_subset [of k selected] by blast
      obtain calls where calls: "haspi_calls (snd ?run) = haspi_calls w @ calls"
        "set calls \<subseteq> signal ` set selected"
      proof (cases "fst ?run")
        case (Inl e)
        then obtain j where "haspi_calls (snd ?run) = haspi_calls w @ map signal (take j selected)"
          using eff(4) by auto
        moreover have "set (map signal (take j selected)) \<subseteq> signal ` set selected"
          using set_take_subset [of j selected] by auto
        ultimately show ?thesis by (rule that)
      next
        case (Inr u)
        then have "haspi_calls (snd ?run) = haspi_calls w @ map signal selected"
          using eff(4) by simp
        moreover have "set (map signal selected) \<subseteq> signal ` set selected" by simp
        ultimately show ?thesis by (rule that)
      qed
      have "s \<notin> set calls" using calls(2) fresh by blast
      with eff(3) new calls(1) show ?thesis by blast
    qed
  qed
qed

theorem run_calculate_haspi_skips_scored_witness:
  "file_records (snd (run_calculate_haspi example_lib
      (example_env [\<lparr>signal = ''S1_L1_A''\<rparr>, \<lparr>signal = ''S1_L1_B''\<rparr>]) (example_cfg 1 1) resumed_world))
      ''train.haspi.jsonl''
     = [\<lparr>signal = ''S1_L1_A'', haspi = 1 / 4\<rparr>, \<lparr>signal = ''S1_L1_B'', haspi = 1 / 2\<rparr>]
   \<and> haspi_calls (snd (run_calculate_haspi example_lib
      (example_env [\<lparr>signal = ''S1_L1_A''\<rparr>, \<lparr>signal = ''S1_L1_B''\<rparr>]) (example_cfg 1 1) resumed_world))
     = [''S1_L1_B'']"
proof -
  have h: "''S1_L1_A'' \<in> signal ` set (file_records resumed_world (results_file (example_cfg 1 1)))"
    by (simp add: example_results_file resumed_world_def file_records_def)
  show ?thesis
    using run_calculate_haspi_skips_scored [OF h, of example_lib
            "example_env [\<lparr>signal = ''S1_L1_A''\<rparr>, \<lparr>signal = ''S1_L1_B''\<rparr>]"]
    by (simp add: example_run_resumed file_records_def)
qed

text \<open>
  Claim C7: a run over the selected records leaves the results file equal to its
  contents before the run followed by one record for each of the first \<open>k\<close> selected
  signals, in order, each with a score the computation returned for that signal, and
  leaves every other file alone. A finished run has written a record for every
  selected signal. An aborted run stopped at the signal after the \<open>k\<close> written ones:
  either the score computation was called for it and raised, or the seeding raised on
  its name (a name that does not encode) before the score computation was called.
\<close>

theorem run_calculate_haspi_append_only:
  assumes "json_manifests E (metadata_dir (path c), dataset c @ ''.json'') = Some records"
    and "select_records records (file_records w (results_file c))
           (batch (compute_haspi c)) (n_batches (compute_haspi c)) = Inr selected"
    and "run_calculate_haspi L E c w = (out, w')"
  shows "\<exists>k scores. k \<le> length selected \<and> length scores = k
       \<and> file_records w' (results_file c) = file_records w (results_file c)
            @ map (\<lambda>(r, h). \<lparr>signal = signal r, haspi = h\<rparr>) (zip (take k selected) scores)
       \<and> (\<forall>p. p \<noteq> results_file c \<longrightarrow> jsonl_files w' p = jsonl_files w p)
       \<and> (\<forall>(r, h) \<in> set (zip (take k selected) scores).
             \<exists>g g'. compute_haspi_for_signal L E (path c) (signal r) g = Inr (h, g'))
       \<and> (case out of
             Inr u \<Rightarrow> k = length selected \<and> haspi_calls w' = haspi_calls w @ map signal selected
           | Inl e \<Rightarrow> k < length selected
               \<and> ((haspi_calls w' = haspi_calls w @ map signal (take (Suc k) selected)
                     \<and> (\<exists>g. compute_haspi_for_signal L E (path c) (signal (selected ! k)) g = Inl e))
                  \<or> (haspi_calls w' = haspi_calls w @ map signal (take k selected)
                     \<and> set_random_seed (compute_haspi c) \<and> has_surrogate (signal (selected ! k))
                     \<and> e = UnicodeEncodeError)))"
proof -
  have "score_loop L E c (results_file c) selected w = (out, w')"
    using assms by (simp add: run_calculate_haspi_cases)
  from score_loop_effect [OF this] show ?thesis by blast
qed

lemma example_compute_bad:
  "compute_haspi_for_signal example_lib (example_env m) example_path ''bad'' g = Inl ValueError"
  by (simp add: compute_haspi_for_signal_def parse_cec2_signal_name_def)

theorem run_calculate_haspi_append_only_witness:
  "run_calculate_haspi example_lib
      (example_env [\<lparr>signal = ''S1_L1_A''\<rparr>, \<lparr>signal = ''bad''\<rparr>, \<lparr>signal = ''S1_L1_C''\<rparr>])
      (example_cfg 1 1) empty_world
     = (Inl ValueError,
        \<lparr>jsonl_files = [''train.haspi.jsonl'' \<mapsto> [\<lparr>signal = ''S1_L1_A'', haspi = 1 / 2\<rparr>]],
         rng = 3, haspi_calls = [''S1_L1_A'', ''bad''],
         fp_writes = [(''train.haspi.jsonl'', json_dumps_result example_lib
                         \<lparr>signal = ''S1_L1_A'', haspi = 1 / 2\<rparr> @ [CHR 0x0A])]\<rparr>)
   \<and> run_calculate_haspi example_lib
      (example_env [\<lparr>signal = ''S1_L1_A''\<rparr>, \<lparr>signal = surrogate_name\<rparr>, \<lparr>signal = ''S1_L1_C''\<rparr>])
      (example_cfg 1 1) empty_world
     = (Inl UnicodeEncodeError,
        \<lparr>jsonl_files = [''train.haspi.jsonl'' \<mapsto> [\<lparr>signal = ''S1_L1_A'', haspi = 1 / 2\<rparr>]],
         rng = 8, haspi_calls = [''S1_L1_A''],
         fp_writes = [(''train.haspi.jsonl'', json_dumps_result example_lib
                         \<lparr>signal = ''S1_L1_A'', haspi = 1 / 2\<rparr> @ [CHR 0x0A])]\<rparr>)"
proof -
  let ?m = "[\<lparr>signal = ''S1_L1_A''\<rparr>, \<lparr>signal = ''bad''\<rparr>, \<lparr>signal = ''S1_L1_C''\<rparr>]"
  let ?w' = "\<lparr>jsonl_files = [''train.haspi.jsonl'' \<mapsto> [\<lparr>signal = ''S1_L1_A'', haspi = 1 / 2 :: real\<rparr>]],
         rng = 3 :: nat, haspi_calls = [''S1_L1_A'', ''bad''],
         fp_writes = [(''train.haspi.jsonl'', json_dumps_result example_lib
                         \<lparr>signal = ''S1_L1_A'', haspi = 1 / 2\<rparr> @ [CHR 0x0A])]\<rparr>"
  let ?ms = "[\<lparr>signal = ''S1_L1_A''\<rparr>, \<lparr>signal = surrogate_name\<rparr>, \<lparr>signal = ''S1_L1_C''\<rparr>]"
  let ?ws = "\<lparr>jsonl_files = [''train.haspi.jsonl'' \<mapsto> [\<lparr>signal = ''S1_L1_A'', haspi = 1 / 2 :: real\<rparr>]],
         rng = 8 :: nat, haspi_calls = [''S1_L1_A''],
         fp_writes = [(''train.haspi.jsonl'', json_dumps_result example_lib
                         \<lparr>signal = ''S1_L1_A'', haspi = 1 / 2\<rparr> @ [CHR 0x0A])]\<rparr>"
  have g1: "json_manifests (example_env ?ms)
              (metadata_dir (path (example_cfg 1 1)), dataset (example_cfg 1 1) @ ''.json'') = Some ?ms"
    by (simp add: example_cfg_fields example_manifest)
  have g2: "select_records ?ms (file_records empty_world (results_file (example_cfg 1 1)))
              (batch (compute_haspi (example_cfg 1 1))) (n_batches (compute_haspi (example_cfg 1 1)))
              = Inr ?ms"
    by (simp add: example_cfg_fields select_records_single_batch file_records_def empty_world_def)
  have g3: "run_calculate_haspi example_lib (example_env ?ms) (example_cfg 1 1) empty_world
              = (Inl UnicodeEncodeError, ?ws)"
    by (simp add: example_run_simps set_seed_with_string_surrogate surrogate_name_def
          empty_world_def del: example_dumps)
  have h1: "json_manifests (example_env ?m)
              (metadata_dir (path (example_cfg 1 1)), dataset (example_cfg 1 1) @ ''.json'') = Some ?m"
    by (simp add: example_cfg_fields example_manifest)
  have h2: "select_records ?m (file_records empty_world (results_file (example_cfg 1 1)))
              (batch (compute_haspi (example_cfg 1 1))) (n_batches (compute_haspi (example_cfg 1 1)))
              = Inr ?m"
    by (simp add: example_cfg_fields select_records_single_batch file_records_def empty_world_def)
  have h3: "run_calculate_haspi example_lib (example_env ?m) (example_cfg 1 1) empty_world
              = (Inl ValueError, ?w')"
    by (simp add: example_run_simps example_compute_bad empty_world_def del: example_dumps)
  show ?thesis
    using run_calculate_haspi_append_only [OF h1 h2 h3]
          run_calculate_haspi_append_only [OF g1 g2 g3] h3 g3 by simp
qed

lemma count_signal_distinct:
  assumes "distinct (map signal rs)" "s \<in> signal ` set rs"
  shows "length (filter (\<lambda>x. signal x = s) rs) = 1"
proof -
  have "length (filter (\<lambda>x. signal x = s) rs) = length (filter (\<lambda>n. n = s) (map signal rs))"
    by (simp add: filter_map comp_def)
  also have "\<dots> = card ({n. n = s} \<inter> set (map signal rs))"
    using assms(1) by (rule distinct_length_filter)
  also have "{n. n = s} \<inter> set (map signal rs) = {s}" using assms(2) by auto
  finally show ?thesis by simp
qed

text \<open>
  Claim C3, as the code has it. With a single batch, a manifest of distinct signal
  names and a results file without duplicate names, a first run that finishes leaves a
  results file in which every manifest signal has exactly one record and no name is
  repeated; a second run with the same inputs finishes and changes nothing.
\<close>

theorem run_calculate_haspi_twice:
  assumes "batch (compute_haspi c) = 1" and "n_batches (compute_haspi c) = 1"
    and "json_manifests E (metadata_dir (path c), dataset c @ ''.json'') = Some records"
    and "distinct (map signal records)"
    and "distinct (map signal (file_records w (results_file c)))"
    and "run_calculate_haspi L E c w = (Inr (), w1)"
  shows "run_calculate_haspi L E c w1 = (Inr (), w1)
       \<and> distinct (map signal (file_records w1 (results_file c)))
       \<and> (\<forall>r \<in> set records.
            length (filter (\<lambda>x. signal x = signal r) (file_records w1 (results_file c))) = 1)"
proof -
  let ?rf = "results_file c"
  let ?old = "signal ` set (file_records w ?rf)"
  let ?sel = "filter (\<lambda>record. signal record \<notin> ?old) records"
  have run1: "score_loop L E c ?rf ?sel w = (Inr (), w1)"
    using assms(1,2,3,6) by (simp add: run_calculate_haspi_cases select_records_single_batch)
  from score_loop_effect [OF run1] obtain scores where
    len: "length scores = length ?sel" and
    log1: "file_records w1 ?rf = file_records w ?rf
            @ map (\<lambda>(r, h). \<lparr>signal = signal r, haspi = h\<rparr>) (zip ?sel scores)"
    by auto
  have "map signal (map (\<lambda>(r, h). \<lparr>signal = signal r, haspi = h\<rparr>) (zip ?sel scores)) = map signal ?sel"
    using len by (rule signal_zip_results)
  then have names1: "map signal (file_records w1 ?rf)
                       = map signal (file_records w ?rf) @ map signal ?sel"
    using log1 by simp
  have covered: "signal r \<in> signal ` set (file_records w1 ?rf)" if "r \<in> set records" for r
  proof (cases "signal r \<in> ?old")
    case True
    then have "signal r \<in> set (map signal (file_records w1 ?rf))" unfolding names1 by simp
    then show ?thesis by simp
  next
    case False
    then have "r \<in> set ?sel" using that by simp
    then have "signal r \<in> set (map signal ?sel)" by simp
    then have "signal r \<in> set (map signal (file_records w1 ?rf))" unfolding names1 by simp
    then show ?thesis by simp
  qed
  then have "filter (\<lambda>record. signal record \<notin> signal ` set (file_records w1 ?rf)) records = []"
    by (simp add: filter_empty_conv)
  then have run2: "run_calculate_haspi L E c w1 = (Inr (), w1)"
    using assms(1,2,3) by (simp add: run_calculate_haspi_cases select_records_single_batch)
  have "distinct (map signal ?sel)" using assms(4) by (rule distinct_map_filter)
  moreover have "set (map signal (file_records w ?rf)) \<inter> set (map signal ?sel) = {}"
    by (force simp: image_iff)
  ultimately have dist: "distinct (map signal (file_records w1 ?rf))"
    unfolding names1 using assms(5) by simp
  have "length (filter (\<lambda>x. signal x = signal r) (file_records w1 ?rf)) = 1"
    if "r \<in> set records" for r
    using dist covered [OF that] by (rule count_signal_distinct)
  with run2 dist show ?thesis by blast
qed

theorem run_calculate_haspi_twice_witness:
  "run_calculate_haspi example_lib
      (example_env [\<lparr>signal = ''S1_L1_A''\<rparr>, \<lparr>signal = ''S1_L1_B''\<rparr>]) (example_cfg 1 1) empty_world
     = (Inr (), scored_world)
   \<and> run_calculate_haspi example_lib
      (example_env [\<lparr>signal = ''S1_L1_A''\<rparr>, \<lparr>signal = ''S1_L1_B''\<rparr>]) (example_cfg 1 1) scored_world
     = (Inr (), scored_world)
   \<and> map signal (file_records scored_world ''train.haspi.jsonl'') = [''S1_L1_A'', ''S1_L1_B'']"
proof -
  let ?m = "[\<lparr>signal = ''S1_L1_A''\<rparr>, \<lparr>signal = ''S1_L1_B''\<rparr>]"
  have h1: "batch (compute_haspi (example_cfg 1 1)) = 1"
    and h2: "n_batches (compute_haspi (example_cfg 1 1)) = 1"
    by (simp_all add: example_cfg_fields)
  have h3: "json_manifests (example_env ?m)
              (metadata_dir (path (example_cfg 1 1)), dataset (example_cfg 1 1) @ ''.json'') = Some ?m"
    by (simp add: example_cfg_fields example_manifest)
  have h4: "distinct (map signal ?m)" by simp
  have h5: "distinct (map signal (file_records empty_world (results_file (example_cfg 1 1))))"
    by (simp add: file_records_def empty_world_def)
  have h6: "run_calculate_haspi example_lib (example_env ?m) (example_cfg 1 1) empty_world
              = (Inr (), scored_world)"
    by (simp add: example_run_simps empty_world_def scored_world_def)
  show ?thesis
    using run_calculate_haspi_twice [OF h1 h2 h3 h4 h5 h6] h6
    by (simp add: scored_world_def file_records_def)
qed

text \<open>
  Claim C3 as stated fails. A manifest naming the same signal twice gives two records
  for it, since the index of the already scored signals is loaded once, before the
  loop. With two batches, two runs of shard 1 over four signals leave the records of
  the first, third and second signal: the fourth is missing.
\<close>

theorem run_calculate_haspi_twice_counterexample:
  "map signal (file_records
      (snd (run_calculate_haspi example_lib
              (example_env [\<lparr>signal = ''S1_L1_A''\<rparr>, \<lparr>signal = ''S1_L1_A''\<rparr>]) (example_cfg 1 1)
         (snd (run_calculate_haspi example_lib
              (example_env [\<lparr>signal = ''S1_L1_A''\<rparr>, \<lparr>signal = ''S1_L1_A''\<rparr>]) (example_cfg 1 1)
              empty_world))))
      (results_file (example_cfg 1 1)))
     = [''S1_L1_A'', ''S1_L1_A'']
   \<and> map signal (file_records
      (snd (run_calculate_haspi example_lib
              (example_env [\<lparr>signal = ''S1_L1_A''\<rparr>, \<lparr>signal = ''S1_L1_B''\<rparr>,
                            \<lparr>signal = ''S1_L1_C''\<rparr>, \<lparr>signal = ''S1_L1_D''\<rparr>]) (example_cfg 1 2)
         (snd (run_calculate_haspi example_lib
              (example_env [\<lparr>signal = ''S1_L1_A''\<rparr>, \<lparr>signal = ''S1_L1_B''\<rparr>,
                            \<lparr>signal = ''S1_L1_C''\<rparr>, \<lparr>signal = ''S1_L1_D''\<rparr>]) (example_cfg 1 2)
              empty_world))))
      (results_file (example_cfg 1 2)))
     = [''S1_L1_A'', ''S1_L1_C'', ''S1_L1_B'']"
proof -
  let ?dup = "[\<lparr>signal = ''S1_L1_A''\<rparr>, \<lparr>signal = ''S1_L1_A''\<rparr>]"
  let ?four = "[\<lparr>signal = ''S1_L1_A''\<rparr>, \<lparr>signal = ''S1_L1_B''\<rparr>,
                \<lparr>signal = ''S1_L1_C''\<rparr>, \<lparr>signal = ''S1_L1_D''\<rparr>]"
  let ?line = "\<lambda>f s. (f, json_dumps_result example_lib \<lparr>signal = s, haspi = 1 / 2\<rparr> @ [CHR 0x0A])"
  let ?w1 = "\<lparr>jsonl_files = [''train.haspi.jsonl'' \<mapsto>
        [\<lparr>signal = ''S1_L1_A'', haspi = 1 / 2\<rparr>, \<lparr>signal = ''S1_L1_A'', haspi = 1 / 2 :: real\<rparr>]],
      rng = 8 :: nat, haspi_calls = [''S1_L1_A'', ''S1_L1_A''],
      fp_writes = [?line ''train.haspi.jsonl'' ''S1_L1_A'', ?line ''train.haspi.jsonl'' ''S1_L1_A'']\<rparr>"
  let ?v1 = "\<lparr>jsonl_files = [''train.haspi.1_2.jsonl'' \<mapsto>
        [\<lparr>signal = ''S1_L1_A'', haspi = 1 / 2\<rparr>, \<lparr>signal = ''S1_L1_C'', haspi = 1 / 2 :: real\<rparr>]],
      rng = 8 :: nat, haspi_calls = [''S1_L1_A'', ''S1_L1_C''],
      fp_writes = [?line ''train.haspi.1_2.jsonl'' ''S1_L1_A'', ?line ''train.haspi.1_2.jsonl'' ''S1_L1_C'']\<rparr>"
  let ?v2 = "\<lparr>jsonl_files = [''train.haspi.1_2.jsonl'' \<mapsto>
        [\<lparr>signal = ''S1_L1_A'', haspi = 1 / 2\<rparr>, \<lparr>signal = ''S1_L1_C'', haspi = 1 / 2 :: real\<rparr>,
         \<lparr>signal = ''S1_L1_B'', haspi = 1 / 2\<rparr>]],
      rng = 8 :: nat, haspi_calls = [''S1_L1_A'', ''S1_L1_C'', ''S1_L1_B''],
      fp_writes = [?line ''train.haspi.1_2.jsonl'' ''S1_L1_A'', ?line ''train.haspi.1_2.jsonl'' ''S1_L1_C'',
                   ?line ''train.haspi.1_2.jsonl'' ''S1_L1_B'']\<rparr>"
  have d1: "run_calculate_haspi example_lib (example_env ?dup) (example_cfg 1 1) empty_world
              = (Inr (), ?w1)"
    by (simp add: example_run_simps empty_world_def)
  have d2: "run_calculate_haspi example_lib (example_env ?dup) (example_cfg 1 1) ?w1
              = (Inr (), ?w1)"
    by (simp add: example_run_simps)
  have s1: "run_calculate_haspi example_lib (example_env ?four) (example_cfg 1 2) empty_world
              = (Inr (), ?v1)"
    by (simp add: example_run_simps empty_world_def)
  have s2: "run_calculate_haspi example_lib (example_env ?four) (example_cfg 1 2) ?v1
              = (Inr (), ?v2)"
    by (simp add: example_run_simps)
  show ?thesis
    by (simp add: d1 d2 s1 s2 example_results_file file_records_def)
qed



end
